theory Spec2Isabelle
  imports Main
begin

section \<open>Strings and regular expressions of the script\<close>

text \<open>
  The script is \<^verbatim>\<open>companies/static/js/script.js\<close>. Its strings are modelled as HOL
  strings; a \<^typ>\<open>char\<close> is read as a code point in U+0000..U+00FF.
\<close>

definition is_digit :: "char \<Rightarrow> bool" where
  \<comment> \<open>the class \<^verbatim>\<open>\d\<close>: the ASCII digits only\<close>
  "is_digit c = (48 \<le> (of_char c :: nat) \<and> (of_char c :: nat) \<le> 57)"

definition digit_val :: "char \<Rightarrow> nat" where
  "digit_val c = (of_char c :: nat) - 48"

definition is_space :: "char \<Rightarrow> bool" where
  \<comment> \<open>the class \<^verbatim>\<open>\s\<close>, which is also what \<^verbatim>\<open>trim()\<close> strips: tab, line feed,
      vertical tab, form feed, carriage return, space, no-break space\<close>
  "is_space c = ((of_char c :: nat) \<in> {9, 10, 11, 12, 13, 32, 160})"

definition js_trim :: "string \<Rightarrow> string" where
  "js_trim s = rev (dropWhile is_space (rev (dropWhile is_space s)))"

definition lower_char :: "char \<Rightarrow> char" where
  \<comment> \<open>one character of \<^verbatim>\<open>toLowerCase()\<close>: A-Z, and the upper-case letters of Latin-1\<close>
  "lower_char c =
     (let n = (of_char c :: nat)
      in if (65 \<le> n \<and> n \<le> 90) \<or> (192 \<le> n \<and> n \<le> 222 \<and> n \<noteq> 215)
         then char_of (n + 32) else c)"

definition toLowerCase :: "string \<Rightarrow> string" where
  "toLowerCase s = map lower_char s"

fun js_split :: "char \<Rightarrow> string \<Rightarrow> string list" where
  \<comment> \<open>\<^verbatim>\<open>s.split(sep)\<close> for a one-character separator\<close>
  "js_split sep [] = [[]]"
| "js_split sep (c # cs) =
     (if c = sep then [] # js_split sep cs
      else (case js_split sep cs of [] \<Rightarrow> [[c]] | w # ws \<Rightarrow> (c # w) # ws))"

definition js_Number :: "string \<Rightarrow> nat" where
  \<comment> \<open>\<^verbatim>\<open>Number(s)\<close> on a string of decimal digits (leading zeros are decimal, not octal);
      the script applies it only to the digit groups its pattern has let through\<close>
  "js_Number s = foldl (\<lambda>a c. 10 * a + digit_val c) 0 s"

text \<open>
  The patterns the script only \<^verbatim>\<open>test\<close>s are anchored at both ends and are sequences of
  single characters and of greedy \<^verbatim>\<open>+\<close> repetitions of a character class. A repetition
  may give characters back, which the disjunction in the last equation tries.
\<close>

datatype rx_item = One "char \<Rightarrow> bool" | Many1 "char \<Rightarrow> bool"

fun rx_full :: "rx_item list \<Rightarrow> string \<Rightarrow> bool" where
  "rx_full [] [] = True"
| "rx_full [] (c # cs) = False"
| "rx_full (One p # r) [] = False"
| "rx_full (One p # r) (c # cs) = (p c \<and> rx_full r cs)"
| "rx_full (Many1 p # r) [] = False"
| "rx_full (Many1 p # r) (c # cs) = (p c \<and> (rx_full (Many1 p # r) cs \<or> rx_full r cs))"

definition lit :: "char \<Rightarrow> rx_item" where
  "lit c = One (\<lambda>x. x = c)"

definition rx_date :: "rx_item list" where
  \<comment> \<open>\<^verbatim>\<open>/^\d{2}\/\d{2}\/\d{4}$/\<close>\<close>
  "rx_date = [One is_digit, One is_digit, lit CHR ''/'', One is_digit, One is_digit, lit CHR ''/'',
              One is_digit, One is_digit, One is_digit, One is_digit]"

section \<open>Calendar validity of a displayed date\<close>

definition DaysInYear :: "nat \<Rightarrow> nat" where
  \<comment> \<open>the Gregorian rule the engine's \<^verbatim>\<open>Date\<close> follows\<close>
  "DaysInYear y =
     (if y mod 4 \<noteq> 0 then 365 else if y mod 100 \<noteq> 0 then 366
      else if y mod 400 \<noteq> 0 then 365 else 366)"

definition month_days :: "nat \<Rightarrow> nat \<Rightarrow> nat" where
  \<comment> \<open>the length of the month with index \<open>mi\<close> (0 = January .. 11 = December) in year \<open>y\<close>\<close>
  "month_days y mi =
     (if mi = 1 then (if DaysInYear y = 366 then 29 else 28)
      else if mi = 3 \<or> mi = 5 \<or> mi = 8 \<or> mi = 10 then 30 else 31)"

record js_date =
  fullYear :: nat
  monthIndex :: nat
  dayOfMonth :: nat

text \<open>
  What the script leaves to the browser is a parameter of the model: the local time zone, and
  what an input holds after the script has assigned a value to it or has changed its type.
\<close>

record browser =
  local_date :: "js_date \<Rightarrow> js_date"
    \<comment> \<open>the calendar date read back from a \<^verbatim>\<open>Date\<close> built at local midnight of the given
        calendar date: the same date, unless the zone's local time has no such midnight\<close>
  assigned :: "string \<Rightarrow> string \<Rightarrow> string"
    \<comment> \<open>the value an input of the given type holds after \<^verbatim>\<open>input.value = v\<close> (the value
        sanitization of the type)\<close>
  retyped :: "string \<Rightarrow> string \<Rightarrow> string"
    \<comment> \<open>the value an input of the given type holding \<open>v\<close> holds after
        \<^verbatim>\<open>input.type = "text"\<close>\<close>

definition civil_day0 :: "nat \<Rightarrow> nat \<Rightarrow> js_date" where
  \<comment> \<open>the calendar date that the arguments \<^verbatim>\<open>(y, m, 0)\<close> name, for a year from 100 on: the
      month index \<open>m\<close> is carried into the year (index 12 is January of the next year), and
      day 0 is the day before the first of that month, that is the last day of the month
      before it\<close>
  "civil_day0 y m =
     (let ym = y + m div 12; mn = m mod 12
      in if mn = 0 then \<lparr>fullYear = ym - 1, monthIndex = 11, dayOfMonth = month_days (ym - 1) 11\<rparr>
         else \<lparr>fullYear = ym, monthIndex = mn - 1, dayOfMonth = month_days ym (mn - 1)\<rparr>)"

definition new_Date_day0 :: "browser \<Rightarrow> nat \<Rightarrow> nat \<Rightarrow> js_date" where
  \<comment> \<open>\<^verbatim>\<open>new Date(y, m, 0)\<close>, built at local midnight and read in the browser's local time\<close>
  "new_Date_day0 br y m = local_date br (civil_day0 y m)"

definition getDate :: "js_date \<Rightarrow> nat" where
  "getDate t = dayOfMonth t"

definition isValidDateDDMMYYYY :: "browser \<Rightarrow> string \<Rightarrow> bool" where
  "isValidDateDDMMYYYY br s =
     (if \<not> rx_full rx_date s then False
      else (case map js_Number (js_split CHR ''/'' s) of
              [d, m, y] \<Rightarrow>
                if y < 1900 \<or> y > 9999 then False
                else if m < 1 \<or> m > 12 then False
                else (let dim = getDate (new_Date_day0 br y m) in d \<ge> 1 \<and> d \<le> dim)
            | _ \<Rightarrow> False))"

text \<open>The property as the specification words it, to be compared with the code.\<close>

definition leap_year :: "nat \<Rightarrow> bool" where
  "leap_year y = (if y mod 400 = 0 then True else if y mod 100 = 0 then False else y mod 4 = 0)"

definition days_in_month :: "nat \<Rightarrow> nat \<Rightarrow> nat" where
  \<comment> \<open>months numbered 1..12\<close>
  "days_in_month y m =
     (if m = 2 then (if leap_year y then 29 else 28)
      else if m = 4 \<or> m = 6 \<or> m = 9 \<or> m = 11 then 30 else 31)"

definition dd_mm_yyyy_shape :: "string \<Rightarrow> bool" where
  \<comment> \<open>the shape \<^verbatim>\<open>\d\d/\d\d/\d\d\d\d\<close>: ten characters, digits but for the two slashes\<close>
  "dd_mm_yyyy_shape s =
     (length s = 10 \<and> s ! 2 = CHR ''/'' \<and> s ! 5 = CHR ''/'' \<and>
      list_all (\<lambda>i. is_digit (s ! i)) [0, 1, 3, 4, 6, 7, 8, 9])"

definition calendar_valid :: "string \<Rightarrow> bool" where
  "calendar_valid s =
     (dd_mm_yyyy_shape s \<and>
      (let d = js_Number (take 2 s); m = js_Number (take 2 (drop 3 s)); y = js_Number (drop 6 s)
       in 1900 \<le> y \<and> y \<le> 9999 \<and> 1 \<le> m \<and> m \<le> 12 \<and> 1 \<le> d \<and> d \<le> days_in_month y m))"

section \<open>Form fields\<close>

text \<open>
  A form is the list \<^verbatim>\<open>form.querySelectorAll("input, select, textarea")\<close> returns, in
  document order. A field records what the script reads of an element: properties, attributes
  and the two layout readings \<^verbatim>\<open>isVisible\<close> consults.
\<close>

datatype tag = Input | Select | Textarea

record field =
  el_tag :: tag
  el_type :: string  \<comment> \<open>\<^verbatim>\<open>el.type\<close>, which the browser gives in lower case\<close>
  el_name :: string  \<comment> \<open>\<^verbatim>\<open>el.name\<close>, empty when the element has none\<close>
  el_value :: string
  el_checked :: bool
  el_disabled :: bool
  el_offsetParent :: bool  \<comment> \<open>\<^verbatim>\<open>el.offsetParent\<close> is not null\<close>
  el_clientRects :: nat  \<comment> \<open>\<^verbatim>\<open>el.getClientRects().length\<close>\<close>
  el_in_hidden :: bool  \<comment> \<open>\<^verbatim>\<open>el.closest("[hidden]")\<close> is not null\<close>
  el_required :: bool  \<comment> \<open>\<^verbatim>\<open>el.hasAttribute("required")\<close>\<close>
  el_data_required :: "string option"  \<comment> \<open>\<^verbatim>\<open>el.dataset.required\<close>\<close>
  el_aria_required :: "string option"
  el_data_optional :: "string option"
  el_data_type :: "string option"
  el_classes :: "string list"
  el_placeholder :: "string option"
  el_pattern :: "string option"

type_synonym form = "field list"

fun startsWith :: "string \<Rightarrow> string \<Rightarrow> bool" where
  \<comment> \<open>\<^verbatim>\<open>s.startsWith(p)\<close>\<close>
  "startsWith s [] = True"
| "startsWith [] (p # ps) = False"
| "startsWith (c # cs) (p # ps) = (c = p \<and> startsWith cs ps)"

fun js_includes :: "string \<Rightarrow> string \<Rightarrow> bool" where
  \<comment> \<open>\<^verbatim>\<open>s.includes(sub)\<close>, also the attribute selector \<^verbatim>\<open>[name*='sub']\<close>\<close>
  "js_includes [] sub = (sub = [])"
| "js_includes (c # cs) sub = (startsWith (c # cs) sub \<or> js_includes cs sub)"

definition isVisible :: "field \<Rightarrow> bool" where
  "isVisible el = (el_offsetParent el \<or> el_clientRects el \<noteq> 0)"

definition isGroupChecked :: "form \<Rightarrow> field \<Rightarrow> bool" where
  \<comment> \<open>the group is \<^verbatim>\<open>input[type="..."][name="..."]\<close> within the form\<close>
  "isGroupChecked form el =
     (let type = toLowerCase (el_type el)
      in if type \<noteq> ''checkbox'' \<and> type \<noteq> ''radio'' then True
         else if el_name el = [] then True
         else list_ex el_checked
                (filter (\<lambda>g. el_tag g = Input \<and> toLowerCase (el_type g) = type \<and> el_name g = el_name el)
                   form))"

fun filled_loop :: "form \<Rightarrow> field list \<Rightarrow> bool" where
  \<comment> \<open>the \<^verbatim>\<open>for\<close> loop of \<^verbatim>\<open>areAllVisibleFieldsFilled\<close> over the fields still to visit\<close>
  "filled_loop form [] = True"
| "filled_loop form (el # rest) =
     (if \<not> isVisible el \<or> el_disabled el \<or> el_type el = ''hidden'' then filled_loop form rest
      else if el_data_optional el = Some ''true'' then filled_loop form rest
      else if toLowerCase (el_type el) = ''button'' \<or> toLowerCase (el_type el) = ''submit''
        then filled_loop form rest
      else if toLowerCase (el_type el) = ''checkbox'' \<or> toLowerCase (el_type el) = ''radio''
        then (if \<not> isGroupChecked form el then False else filled_loop form rest)
      else if js_trim (el_value el) = [] then False
      else filled_loop form rest)"

definition areAllVisibleFieldsFilled :: "form \<Rightarrow> bool" where
  "areAllVisibleFieldsFilled form = filled_loop form form"

definition dateSel :: "field \<Rightarrow> bool" where
  \<comment> \<open>the selector list \<^verbatim>\<open>input.date-field, input[placeholder="dd/mm/yyyy"],
      input[placeholder="DD/MM/YYYY"], input[data-type='date'], input[name*='date'],
      input[name*='dob']\<close>\<close>
  "dateSel el =
     (el_tag el = Input \<and>
      (''date-field'' \<in> set (el_classes el) \<or>
       el_placeholder el = Some ''dd/mm/yyyy'' \<or>
       el_placeholder el = Some ''DD/MM/YYYY'' \<or>
       el_data_type el = Some ''date'' \<or>
       js_includes (el_name el) ''date'' \<or>
       js_includes (el_name el) ''dob''))"

fun dates_loop :: "browser \<Rightarrow> field list \<Rightarrow> bool" where
  \<comment> \<open>the \<^verbatim>\<open>for\<close> loop of \<^verbatim>\<open>allDatesValid\<close>\<close>
  "dates_loop br [] = True"
| "dates_loop br (el # rest) =
     (if \<not> isVisible el \<or> el_disabled el then dates_loop br rest
      else if length (js_trim (el_value el)) \<noteq> 10 \<or>
              \<not> isValidDateDDMMYYYY br (js_trim (el_value el))
        then False
      else dates_loop br rest)"

definition allDatesValid :: "browser \<Rightarrow> form \<Rightarrow> bool" where
  "allDatesValid br form = dates_loop br (filter dateSel form)"

section \<open>The Validator\<close>

definition not_space_at :: "char \<Rightarrow> bool" where
  \<comment> \<open>the class \<^verbatim>\<open>[^\s@]\<close>\<close>
  "not_space_at c = (\<not> is_space c \<and> c \<noteq> CHR ''@'')"

definition rx_email :: "rx_item list" where
  \<comment> \<open>\<^verbatim>\<open>/^[^\s@]+@[^\s@]+\.[^\s@]+$/\<close>\<close>
  "rx_email = [Many1 not_space_at, lit CHR ''@'', Many1 not_space_at, lit CHR ''.'', Many1 not_space_at]"

definition rx_aadhar :: "rx_item list" where
  \<comment> \<open>\<^verbatim>\<open>/^\d{4}\s\d{4}\s\d{4}$/\<close>\<close>
  "rx_aadhar =
     [One is_digit, One is_digit, One is_digit, One is_digit, One is_space,
      One is_digit, One is_digit, One is_digit, One is_digit, One is_space,
      One is_digit, One is_digit, One is_digit, One is_digit]"

record validation =
  valid :: bool
  firstEl :: "nat option"  \<comment> \<open>the failing element, as its position in the form\<close>
  msg :: string

definition fail :: "nat \<Rightarrow> string \<Rightarrow> validation" where
  "fail el m = \<lparr>valid = False, firstEl = Some el, msg = m\<rparr>"

definition skipped :: "field \<Rightarrow> bool" where
  \<comment> \<open>the \<^verbatim>\<open>continue\<close> at the head of the Validator's loop\<close>
  "skipped el = (el_in_hidden el \<or> el_type el = ''hidden'' \<or> el_disabled el)"

definition required :: "field \<Rightarrow> bool" where
  "required el =
     (el_required el \<or> el_data_required el = Some ''true'' \<or> el_aria_required el = Some ''true'')"

definition required_empty :: "field \<Rightarrow> bool" where
  "required_empty el = (required el \<and> js_trim (el_value el) = [])"

definition bad_email :: "field \<Rightarrow> bool" where
  "bad_email el =
     (el_type el = ''email'' \<and> js_trim (el_value el) \<noteq> [] \<and> \<not> rx_full rx_email (js_trim (el_value el)))"

definition date_like :: "field \<Rightarrow> bool" where
  \<comment> \<open>\<^verbatim>\<open>el.classList.contains("date-field") || el.dataset.type === "date" ||
      /date|dob/i.test(el.name||"")\<close>\<close>
  "date_like el =
     (''date-field'' \<in> set (el_classes el) \<or> el_data_type el = Some ''date'' \<or>
      js_includes (toLowerCase (el_name el)) ''date'' \<or> js_includes (toLowerCase (el_name el)) ''dob'')"

definition bad_date :: "browser \<Rightarrow> field \<Rightarrow> bool" where
  "bad_date br el =
     (date_like el \<and> js_trim (el_value el) \<noteq> [] \<and>
      \<not> isValidDateDDMMYYYY br (js_trim (el_value el)))"

definition bad_aadhar :: "field \<Rightarrow> bool" where
  "bad_aadhar el =
     (el_name el \<noteq> [] \<and> js_includes (toLowerCase (el_name el)) ''aadhar'' \<and>
      js_trim (el_value el) \<noteq> [] \<and> \<not> rx_full rx_aadhar (js_trim (el_value el)))"

fun validate_loop :: "browser \<Rightarrow> nat \<Rightarrow> field list \<Rightarrow> validation" where
  \<comment> \<open>the \<^verbatim>\<open>for\<close> loop of \<^verbatim>\<open>validateForm\<close>; \<open>i\<close> is the position of the next field\<close>
  "validate_loop br i [] = \<lparr>valid = True, firstEl = None, msg = []\<rparr>"
| "validate_loop br i (el # rest) =
     (if skipped el then validate_loop br (Suc i) rest
      else if required_empty el then fail i ''Please fill the required field.''
      else if bad_email el then fail i ''Invalid email address.''
      else if bad_date br el then fail i ''Date must be dd/mm/yyyy.''
      else if bad_aadhar el then fail i ''Invalid Aadhaar format.''
      else validate_loop br (Suc i) rest)"

definition validateForm :: "browser \<Rightarrow> form \<Rightarrow> validation" where
  "validateForm br form = validate_loop br 0 form"

definition mark :: "nat option \<Rightarrow> form \<Rightarrow> form" where
  \<comment> \<open>\<^verbatim>\<open>el.classList.add("invalid")\<close> on the failing element, which the Validator does as it
      returns\<close>
  "mark el form =
     (case el of
        None \<Rightarrow> form
      | Some i \<Rightarrow>
          if i < length form \<and> ''invalid'' \<notin> set (el_classes (form ! i))
          then form[i := (form ! i)\<lparr>el_classes := el_classes (form ! i) @ [''invalid'']\<rparr>]
          else form)"

section \<open>The Save-Gate\<close>

record button =
  btn_disabled :: bool
  btn_classes :: "string list"
  btn_text :: string

definition classList_toggle :: "string \<Rightarrow> bool \<Rightarrow> string list \<Rightarrow> string list" where
  \<comment> \<open>\<^verbatim>\<open>classList.toggle(c, force)\<close>\<close>
  "classList_toggle c force cs =
     (if force then (if c \<in> set cs then cs else cs @ [c]) else filter (\<lambda>x. x \<noteq> c) cs)"

definition recomputeSaveEnabled ::
  "browser \<Rightarrow> form option \<Rightarrow> button option \<Rightarrow> button option" where
  \<comment> \<open>the save button after the call; a missing form or button returns at once. The class
      \<^verbatim>\<open>invalid\<close> that the Validator puts on a failing field is no part of this result.\<close>
  "recomputeSaveEnabled br form saveBtn =
     (case form of None \<Rightarrow> saveBtn
      | Some f \<Rightarrow>
          (case saveBtn of None \<Rightarrow> None
           | Some b \<Rightarrow>
               (let enable =
                      (areAllVisibleFieldsFilled f \<and> allDatesValid br f \<and> valid (validateForm br f))
                in Some (b\<lparr>btn_disabled := \<not> enable,
                            btn_classes := classList_toggle ''save-disabled'' (\<not> enable) (btn_classes b)\<rparr>))))"

definition recompute_marks :: "browser \<Rightarrow> form \<Rightarrow> form" where
  \<comment> \<open>the form after \<^verbatim>\<open>recomputeSaveEnabled\<close>: the Validator runs only when the two checks
      before it in the conjunction pass, and then marks the field it fails on\<close>
  "recompute_marks br f =
     (if areAllVisibleFieldsFilled f \<and> allDatesValid br f then mark (firstEl (validateForm br f)) f
      else f)"

section \<open>Dates between display and transmission\<close>

type_synonym formdata = "(string \<times> string) list"

fun fd_set :: "string \<Rightarrow> string \<Rightarrow> formdata \<Rightarrow> formdata" where
  \<comment> \<open>\<^verbatim>\<open>formData.set(name, value)\<close>: the first entry of that name is replaced and the
      others are dropped; with no such entry the pair is appended\<close>
  "fd_set n v [] = [(n, v)]"
| "fd_set n v (e # r) = (if fst e = n then (n, v) # filter (\<lambda>x. fst x \<noteq> n) r else e # fd_set n v r)"

definition transmitted :: "string \<Rightarrow> string option" where
  \<comment> \<open>\<^verbatim>\<open>m = String(inp.value||"").trim().match(/^(\d{2})\/(\d{2})\/(\d{4})$/)\<close> and, when it
      matches, the string \<^verbatim>\<open>m[3]-m[2]-m[1]\<close>; the three groups stand at fixed positions\<close>
  "transmitted v =
     (let s = js_trim v
      in if rx_full rx_date s then Some (drop 6 s @ ''-'' @ take 2 (drop 3 s) @ ''-'' @ take 2 s)
         else None)"

fun normalize_dates :: "field list \<Rightarrow> formdata \<Rightarrow> formdata" where
  \<comment> \<open>the \<^verbatim>\<open>forEach\<close> of the save handler over the date inputs of the form\<close>
  "normalize_dates [] fd = fd"
| "normalize_dates (inp # rest) fd =
     (case transmitted (el_value inp) of
        Some t \<Rightarrow> normalize_dates rest (fd_set (el_name inp) t fd)
      | None \<Rightarrow> normalize_dates rest fd)"

definition rx_iso :: "rx_item list" where
  \<comment> \<open>\<^verbatim>\<open>/^\d{4}-\d{2}-\d{2}$/\<close>\<close>
  "rx_iso = [One is_digit, One is_digit, One is_digit, One is_digit, lit CHR ''-'',
             One is_digit, One is_digit, lit CHR ''-'', One is_digit, One is_digit]"

definition date_pattern :: string where
  \<comment> \<open>the string \<^verbatim>\<open>\d{2}/\d{2}/\d{4}\<close>\<close>
  "date_pattern = CHR 0x5C # ''d{2}/'' @ CHR 0x5C # ''d{2}/'' @ CHR 0x5C # ''d{4}''"

definition formatDateFields_input :: "browser \<Rightarrow> field \<Rightarrow> field" where
  \<comment> \<open>what \<^verbatim>\<open>formatDateFields\<close> does to one input: the display string is assigned while the
      input still has its own type, and the type is set to text after that (the mask it
      attaches reacts to later typing only)\<close>
  "formatDateFields_input br input =
     (let shown =
        (if el_value input \<noteq> [] \<and> js_includes (el_value input) ''-'' \<and>
            rx_full rx_iso (el_value input)
         then (case js_split CHR ''-'' (el_value input) of
                 [yyyy, mm, dd] \<Rightarrow>
                   input\<lparr>el_value := assigned br (el_type input) (dd @ ''/'' @ mm @ ''/'' @ yyyy)\<rparr>
               | _ \<Rightarrow> input)
         else input)
      in shown\<lparr>el_pattern := Some date_pattern, el_placeholder := Some ''dd/mm/yyyy'',
                el_type := ''text'', el_value := retyped br (el_type shown) (el_value shown)\<rparr>)"

definition formatDateFields :: "browser \<Rightarrow> field list \<Rightarrow> field list" where
  \<comment> \<open>over the inputs of the document that the date selector matches\<close>
  "formatDateFields br doc =
     map (\<lambda>el. if dateSel el then formatDateFields_input br el else el) doc"

section \<open>Installing a form fragment\<close>

definition digit_char :: "nat \<Rightarrow> char" where
  "digit_char n = char_of (48 + n)"

fun js_String :: "nat \<Rightarrow> string" where
  \<comment> \<open>\<^verbatim>\<open>String(n)\<close> for a non-negative integer\<close>
  "js_String n = (if n < 10 then [digit_char n] else js_String (n div 10) @ [digit_char (n mod 10)])"

declare js_String.simps [simp del]

definition padStart2 :: "string \<Rightarrow> string" where
  \<comment> \<open>\<^verbatim>\<open>s.padStart(2, "0")\<close>\<close>
  "padStart2 s = replicate (2 - length s) CHR ''0'' @ s"

definition formatted :: "js_date \<Rightarrow> string" where
  \<comment> \<open>the string built from \<^verbatim>\<open>today.getDate()\<close>, \<^verbatim>\<open>today.getMonth() + 1\<close> and
      \<^verbatim>\<open>today.getFullYear()\<close>\<close>
  "formatted today =
     padStart2 (js_String (dayOfMonth today)) @ ''/'' @
     padStart2 (js_String (monthIndex today + 1)) @ ''/'' @ js_String (fullYear today)"

definition hex_digit :: "nat \<Rightarrow> char" where
  "hex_digit n = ''0123456789ABCDEF'' ! (n mod 16)"

definition percent :: "nat \<Rightarrow> string" where
  "percent byte = [CHR ''%'', hex_digit (byte div 16), hex_digit byte]"

definition uri_unreserved :: "char \<Rightarrow> bool" where
  "uri_unreserved c =
     (let n = (of_char c :: nat)
      in (65 \<le> n \<and> n \<le> 90) \<or> (97 \<le> n \<and> n \<le> 122) \<or> (48 \<le> n \<and> n \<le> 57) \<or>
         c \<in> set ''-_.!~*'' \<or> n = 39 \<or> c = CHR ''('' \<or> c = CHR '')'')"

definition encodeURIComponent :: "string \<Rightarrow> string" where
  \<comment> \<open>unreserved characters stay; any other is written as the bytes of its UTF-8 form\<close>
  "encodeURIComponent s =
     concat (map (\<lambda>c. let n = (of_char c :: nat)
                       in if uri_unreserved c then [c]
                          else if n < 128 then percent n
                          else percent (192 + n div 64) @ percent (128 + n mod 64)) s)"

definition strip_colon :: "string \<Rightarrow> string" where
  \<comment> \<open>\<^verbatim>\<open>s.replace(/^:/, "")\<close>\<close>
  "strip_colon s = (case s of [] \<Rightarrow> [] | c # cs \<Rightarrow> if c = CHR '':'' then cs else c # cs)"

definition getEntityBase :: "string \<Rightarrow> string \<Rightarrow> string" where
  \<comment> \<open>the first argument is \<^verbatim>\<open>window.location.pathname\<close>, read when the entity is empty\<close>
  "getEntityBase pathname entity =
     (if entity \<noteq> []
      then ''/'' @ encodeURIComponent (toLowerCase (filter (\<lambda>c. \<not> is_space c) entity)) @ ''/''
      else if pathname \<noteq> [] \<and> last pathname = CHR ''/'' then pathname else pathname @ ''/'')"

record form_el =
  fm_fields :: "field list"
  fm_action :: string
  fm_data_entity :: "string option"

record fragment =
  frag_has_modal :: bool  \<comment> \<open>the markup holds an element with id \<^verbatim>\<open>entity-modal\<close>\<close>
  frag_has_save :: bool
    \<comment> \<open>that element holds the button \<^verbatim>\<open>modal-save-btn\<close> (the generic skeleton always does)\<close>
  frag_form :: "form_el option"  \<comment> \<open>the element with id \<^verbatim>\<open>entity-form\<close> it brings, if any\<close>

definition set_target :: "string \<Rightarrow> string \<Rightarrow> string \<Rightarrow> string \<Rightarrow> form_el \<Rightarrow> form_el" where
  \<comment> \<open>\<^verbatim>\<open>form.dataset.entity = entity\<close> and the action of the mode\<close>
  "set_target base entity mode ident fm =
     (let fm1 = fm\<lparr>fm_data_entity := Some entity\<rparr>
      in if mode = ''Create'' then fm1\<lparr>fm_action := base @ ''create/''\<rparr>
         else if mode = ''Edit'' then fm1\<lparr>fm_action := base @ ''update/'' @ strip_colon ident @ ''/''\<rparr>
         else fm1)"

definition prefill :: "browser \<Rightarrow> js_date \<Rightarrow> field list \<Rightarrow> field list" where
  \<comment> \<open>\<^verbatim>\<open>form.querySelectorAll("input.date-field").forEach(input => { if (!input.value)
      input.value = formatted; })\<close>, run before the date re-display gives the inputs the type
      text\<close>
  "prefill br today fs =
     map (\<lambda>input. if el_tag input = Input \<and> ''date-field'' \<in> set (el_classes input) \<and>
                      el_value input = []
                   then input\<lparr>el_value := assigned br (el_type input) (formatted today)\<rparr>
                   else input) fs"

definition insertEntityModal ::
  "browser \<Rightarrow> string \<Rightarrow> js_date \<Rightarrow> string \<Rightarrow> fragment \<Rightarrow> string \<Rightarrow> string \<Rightarrow> form_el option"
  where
  \<comment> \<open>the entity form once \<^verbatim>\<open>insertEntityModal(entity, html, mode, id)\<close> has run: the branch
      on a returned modal root, the date re-display that follows both branches, and the first
      run of the Save-Gate, which \<^verbatim>\<open>prepareFormValidation\<close> makes when the page holds the
      save button. The page's path and the current date are read from the browser. Left out
      are the modal's title, the listeners and attributes of the masks, the code that a later
      request may fill in, the wiring of password inputs, and the date-picker and phone
      libraries, which the script skips when the page does not load them.\<close>
  "insertEntityModal br pathname today entity frag mode ident =
     (let base = getEntityBase pathname entity;
          installed =
            (if frag_has_modal frag
             then map_option (set_target base entity mode ident) (frag_form frag)
             else map_option
                    (\<lambda>fm. let fm1 = set_target base entity mode ident fm
                          in if mode = ''Create''
                             then fm1\<lparr>fm_fields := prefill br today (fm_fields fm1)\<rparr>
                             else fm1)
                    (frag_form frag));
          has_save = (if frag_has_modal frag then frag_has_save frag else True)
      in map_option
           (\<lambda>fm. let shown = formatDateFields br (fm_fields fm)
                 in fm\<lparr>fm_fields := (if has_save then recompute_marks br shown else shown)\<rparr>)
           installed)"

section \<open>The Entity Router\<close>

record element =
  ds_openEntity :: "string option"  \<comment> \<open>\<^verbatim>\<open>el.dataset.openEntity\<close>\<close>
  ds_editEntity :: "string option"
  ds_deleteEntity :: "string option"
  ds_entity :: "string option"  \<comment> \<open>the attribute \<^verbatim>\<open>data-entity\<close>\<close>
  ds_id :: "string option"  \<comment> \<open>the attribute \<^verbatim>\<open>data-id\<close>\<close>
  at_id :: string  \<comment> \<open>\<^verbatim>\<open>el.id\<close>, empty when the element has none\<close>
  at_href :: "string option"
  anc_entity :: "string option list"  \<comment> \<open>\<^verbatim>\<open>data-entity\<close> of the ancestors, nearest first\<close>
  anc_id :: "string option list"  \<comment> \<open>\<^verbatim>\<open>data-id\<close> of the ancestors, nearest first\<close>

fun first_truthy :: "string option list \<Rightarrow> string" where
  \<comment> \<open>\<^verbatim>\<open>a || b || ... || ""\<close> over strings that may be undefined or null\<close>
  "first_truthy [] = []"
| "first_truthy (None # r) = first_truthy r"
| "first_truthy (Some s # r) = (if s \<noteq> [] then s else first_truthy r)"

fun closest :: "string option list \<Rightarrow> string option" where
  \<comment> \<open>the attribute's value on the nearest element that has it, the element itself first\<close>
  "closest [] = None"
| "closest (None # r) = closest r"
| "closest (Some s # r) = Some s"

definition ci :: "char \<Rightarrow> rx_item" where
  \<comment> \<open>a letter of a pattern under the flag \<^verbatim>\<open>i\<close>\<close>
  "ci c = One (\<lambda>x. lower_char x = c)"

definition rx_dot :: "char \<Rightarrow> bool" where
  \<comment> \<open>the class \<^verbatim>\<open>.\<close>: any character but a line terminator\<close>
  "rx_dot c = ((of_char c :: nat) \<noteq> 10 \<and> (of_char c :: nat) \<noteq> 13)"

definition rx_create_btn :: "rx_item list" where
  \<comment> \<open>\<^verbatim>\<open>/^create-.+-btn$/i\<close>\<close>
  "rx_create_btn =
     [ci CHR ''c'', ci CHR ''r'', ci CHR ''e'', ci CHR ''a'', ci CHR ''t'', ci CHR ''e'', lit CHR ''-'',
      Many1 rx_dot, lit CHR ''-'', ci CHR ''b'', ci CHR ''t'', ci CHR ''n'']"

definition strip_prefix :: "string \<Rightarrow> string \<Rightarrow> string" where
  \<comment> \<open>\<^verbatim>\<open>s.replace(/^p/, "")\<close> for a literal \<open>p\<close>\<close>
  "strip_prefix p s = (if startsWith s p then drop (length p) s else s)"

definition strip_suffix :: "string \<Rightarrow> string \<Rightarrow> string" where
  \<comment> \<open>\<^verbatim>\<open>s.replace(/p$/, "")\<close> for a literal \<open>p\<close>\<close>
  "strip_suffix p s = (if startsWith (rev s) (rev p) then take (length s - length p) s else s)"

definition not_slash :: "char \<Rightarrow> bool" where
  \<comment> \<open>the class \<^verbatim>\<open>[^\/]\<close>\<close>
  "not_slash c = (c \<noteq> CHR ''/'')"

definition op_then_end :: "string \<Rightarrow> string \<Rightarrow> bool" where
  \<comment> \<open>one alternative of \<^verbatim>\<open>(get|create|update|delete)(\/|$)\<close> at the head of \<open>r\<close>, letters
      in either case\<close>
  "op_then_end r op =
     (startsWith (toLowerCase r) op \<and>
      (case drop (length op) r of [] \<Rightarrow> True | c # _ \<Rightarrow> c = CHR ''/''))"

definition href_entity :: "string \<Rightarrow> string option" where
  \<comment> \<open>group 1 of \<^verbatim>\<open>href.match(/^\/([^\/]+)\/(get|create|update|delete)(\/|$)/i)\<close>. The greedy
      segment must be followed by a slash, so only the longest run of non-slashes can match.\<close>
  "href_entity href =
     (case href of
        [] \<Rightarrow> None
      | c # r \<Rightarrow>
          if c \<noteq> CHR ''/'' then None
          else (let seg = takeWhile not_slash r; rest = dropWhile not_slash r
                in if seg = [] then None
                   else (case rest of
                           [] \<Rightarrow> None
                         | _ # r2 \<Rightarrow>
                             if list_ex (op_then_end r2) [''get'', ''create'', ''update'', ''delete'']
                             then Some seg else None)))"

definition getEntityFromElement :: "element option \<Rightarrow> string" where
  "getEntityFromElement e =
     (case e of
        None \<Rightarrow> []
      | Some el \<Rightarrow>
          (let entity = first_truthy [ds_openEntity el, ds_editEntity el, ds_deleteEntity el,
                                      ds_entity el, ds_entity el]
           in if entity \<noteq> [] then entity
              else if rx_full rx_create_btn (at_id el)
                then strip_suffix ''-btn'' (strip_prefix ''create-'' (at_id el))
              else (case (case first_truthy [at_href el] of [] \<Rightarrow> None | href \<Rightarrow> href_entity href) of
                      Some m1 \<Rightarrow> m1
                    | None \<Rightarrow>
                        (case closest (ds_entity el # anc_entity el) of
                           Some w \<Rightarrow> w
                         | None \<Rightarrow> []))))"

definition id_after :: "string \<Rightarrow> string \<Rightarrow> string option" where
  \<comment> \<open>one alternative of \<^verbatim>\<open>(update|get|delete)\<close> at the head of \<open>r\<close>, then
      \<^verbatim>\<open>\/([^\/]+)\/?$\<close>, giving the segment. The segment cannot give characters back: after
      a shorter one comes a non-slash, where neither the optional slash nor the end matches.\<close>
  "id_after r op =
     (if startsWith (toLowerCase r) op
      then (case drop (length op) r of
              [] \<Rightarrow> None
            | c # r2 \<Rightarrow>
                if c \<noteq> CHR ''/'' then None
                else (let seg = takeWhile not_slash r2; rest = dropWhile not_slash r2
                      in if seg \<noteq> [] \<and> (rest = [] \<or> rest = ''/'') then Some seg else None))
      else None)"

definition id_at :: "string \<Rightarrow> string option" where
  \<comment> \<open>the pattern \<^verbatim>\<open>\/(update|get|delete)\/([^\/]+)\/?$\<close> tried at the head of \<open>s\<close>, the
      alternatives in their order\<close>
  "id_at s =
     (case s of
        [] \<Rightarrow> None
      | c # r \<Rightarrow>
          if c \<noteq> CHR ''/'' then None
          else (case id_after r ''update'' of
                  Some m \<Rightarrow> Some m
                | None \<Rightarrow>
                    (case id_after r ''get'' of
                       Some m \<Rightarrow> Some m
                     | None \<Rightarrow> id_after r ''delete'')))"

fun href_id :: "string \<Rightarrow> string option" where
  \<comment> \<open>group 2 of \<^verbatim>\<open>href.match(/\/(update|get|delete)\/([^\/]+)\/?$/i)\<close>: the pattern is not
      anchored at the start, so the leftmost position where it matches wins\<close>
  "href_id [] = None"
| "href_id (c # cs) = (case id_at (c # cs) of Some m \<Rightarrow> Some m | None \<Rightarrow> href_id cs)"

definition getIdFromElement :: "element option \<Rightarrow> string" where
  "getIdFromElement e =
     (case e of
        None \<Rightarrow> []
      | Some el \<Rightarrow>
          (let id0 = first_truthy [ds_id el, ds_id el, closest (ds_id el # anc_id el)];
               id1 = (if id0 = []
                      then (case first_truthy [at_href el] of
                              [] \<Rightarrow> id0
                            | href \<Rightarrow> (case href_id href of Some m2 \<Rightarrow> m2 | None \<Rightarrow> id0))
                      else id0)
           in strip_colon id1))"

section \<open>Effects on the page\<close>

text \<open>
  What a handler does beyond computing values is recorded as the list of effects it causes,
  in order. A field is named by its position in the form, or by the name the server gave.
\<close>

datatype effect =
    Alert string
  | Confirm string
  | Fetch string string formdata  \<comment> \<open>method, address, form data sent\<close>
  | ShowLoginOverlay  \<comment> \<open>the login modal is reset and shown\<close>
  | LoginError string  \<comment> \<open>the inline message of the login modal\<close>
  | ConsoleWarn string
  | ConsoleError string
  | CloseEntityModal
  | Reload
  | FieldAnnotation string string  \<comment> \<open>a line of the error panel and the field marked invalid\<close>
  | MarkAndFocus string  \<comment> \<open>the named field, if found, marked invalid, focused and cleared\<close>
  | ReplaceModal string  \<comment> \<open>the modal replaced by returned markup and wired again\<close>
  | Focus nat
  | SelectText nat
  | ScrollIntoView nat
  | SaveBusy  \<comment> \<open>the save button disabled and labelled \<^verbatim>\<open>Saving...\<close>\<close>
  | SaveRestored  \<comment> \<open>the save button enabled again with its label\<close>

fun is_fetch :: "effect \<Rightarrow> bool" where
  "is_fetch (Fetch m u d) = True"
| "is_fetch e = False"

fun is_field_annotation :: "effect \<Rightarrow> bool" where
  "is_field_annotation (FieldAnnotation f m) = True"
| "is_field_annotation (MarkAndFocus f) = True"
| "is_field_annotation e = False"

record page =
  body_role :: "string option option"
    \<comment> \<open>\<^verbatim>\<open>document.body\<close>, if there is one, and its \<^verbatim>\<open>data-role\<close>, if it has one\<close>
  has_login_modal :: bool  \<comment> \<open>the page holds the element \<^verbatim>\<open>login-modal\<close>\<close>
  has_login_error :: bool  \<comment> \<open>the page holds the element \<^verbatim>\<open>login-error\<close>\<close>

definition or_else :: "string \<Rightarrow> string \<Rightarrow> string" where
  \<comment> \<open>\<^verbatim>\<open>a || b\<close> on strings\<close>
  "or_else a b = (if a \<noteq> [] then a else b)"

definition openLoginModal :: "page \<Rightarrow> effect list" where
  "openLoginModal pg = (if has_login_modal pg then [ShowLoginOverlay] else [Alert ''Not authenticated.''])"

definition showInlineLoginError :: "page \<Rightarrow> string \<Rightarrow> effect list" where
  "showInlineLoginError pg m =
     (if \<not> has_login_error pg then [Alert (or_else m ''Invalid credentials.'')]
      else [LoginError (or_else m ''Invalid credentials.'')])"

definition handleAuthFailure :: "page \<Rightarrow> string \<Rightarrow> effect list" where
  "handleAuthFailure pg m =
     openLoginModal pg @ showInlineLoginError pg (or_else m ''Not authenticated.'') @
     [ConsoleWarn ''Auth required'']"

section \<open>Delete\<close>

definition getCurrentRole :: "string option option \<Rightarrow> string" where
  \<comment> \<open>with no body the expression throws, and the \<^verbatim>\<open>catch\<close> returns the empty string\<close>
  "getCurrentRole body =
     (case body of None \<Rightarrow> [] | Some r \<Rightarrow> toLowerCase (case r of None \<Rightarrow> [] | Some s \<Rightarrow> s))"

definition isUserPermEntity :: "string \<Rightarrow> bool" where
  \<comment> \<open>\<^verbatim>\<open>/^userpermissions?$/i.test(String(ent || ""))\<close>\<close>
  "isUserPermEntity ent =
     (toLowerCase ent = ''userpermission'' \<or> toLowerCase ent = ''userpermissions'')"

definition deleteEntity :: "page \<Rightarrow> bool \<Rightarrow> string \<Rightarrow> string \<Rightarrow> effect list" where
  \<comment> \<open>the effects up to and including the request; the second argument is the user's answer to
      the confirmation\<close>
  "deleteEntity pg confirmed entity ident =
     Confirm ''Are you sure you want to delete this item?'' #
     (if \<not> confirmed then []
      else if getCurrentRole (body_role pg) = ''master''
        then [Alert ''Delete is disabled for Master role.'']
      else if isUserPermEntity entity
        then [Alert ''This is a settings page with no table. Use the User Permissions UI.'']
      else [Fetch ''POST''
              (''/'' @ encodeURIComponent (toLowerCase (filter (\<lambda>c. \<not> is_space c) entity)) @
               ''/delete/'' @ encodeURIComponent (strip_colon ident) @ ''/'')
              []])"

section \<open>The Submission Pipeline\<close>





datatype msgs = MsgArray "string list" | MsgText string

record json_data =
  jd_success :: bool  \<comment> \<open>\<^verbatim>\<open>data.success\<close> is truthy\<close>
  jd_errors :: "(string \<times> msgs) list option"  \<comment> \<open>the entries of \<^verbatim>\<open>data.errors\<close>, if truthy\<close>
  jd_html :: string  \<comment> \<open>\<^verbatim>\<open>data.html\<close>, empty when absent\<close>

record response =
  res_status :: nat
  res_redirected :: bool
  res_content_type :: "string option"
  res_json :: "json_data option"  \<comment> \<open>what \<^verbatim>\<open>res.json()\<close> gives; nothing when it rejects\<close>
  res_text :: string

definition joined :: "msgs \<Rightarrow> string" where
  \<comment> \<open>\<^verbatim>\<open>Array.isArray(m) ? m.join(", ") : m\<close>\<close>
  "joined m =
     (case m of
        MsgArray ms \<Rightarrow> (case ms of [] \<Rightarrow> [] | x # xs \<Rightarrow> foldl (\<lambda>a b. a @ '', '' @ b) x xs)
      | MsgText s \<Rightarrow> s)"

definition showFormErrors :: "(string \<times> msgs) list \<Rightarrow> effect list" where
  "showFormErrors errors = map (\<lambda>e. FieldAnnotation (fst e) (joined (snd e))) errors"

definition first_message :: "(string \<times> msgs) list \<Rightarrow> string" where
  \<comment> \<open>\<^verbatim>\<open>Array.isArray(msgs) ? msgs[0] : String(msgs || "Fix errors.")\<close> for the first entry,
      an undefined value read as empty\<close>
  "first_message errors =
     (case errors of
        [] \<Rightarrow> ''Fix errors.''
      | e # _ \<Rightarrow>
          (case snd e of
             MsgArray ms \<Rightarrow> (case ms of [] \<Rightarrow> [] | x # _ \<Rightarrow> x)
           | MsgText s \<Rightarrow> or_else s ''Fix errors.''))"

definition has_modal_marker :: "string \<Rightarrow> bool" where
  \<comment> \<open>\<^verbatim>\<open>/id=["']entity-modal["']/.test(text)\<close>\<close>
  "has_modal_marker text =
     list_ex (\<lambda>q1. list_ex (\<lambda>q2. js_includes text (''id='' @ [q1] @ ''entity-modal'' @ [q2]))
                [CHR 0x22, CHR 0x27]) [CHR 0x22, CHR 0x27]"

definition save_response :: "page \<Rightarrow> response option \<Rightarrow> effect list" where
  \<comment> \<open>what follows the request: \<^verbatim>\<open>then\<close> on a response, \<^verbatim>\<open>catch\<close> on a network failure
      (no response) or a body that is not the JSON announced, and \<^verbatim>\<open>finally\<close>\<close>
  "save_response pg r =
     (case r of
        None \<Rightarrow> [ConsoleError ''Submission failed:'', Alert ''Submission failed. Check console.'']
      | Some res \<Rightarrow>
          (let ct = toLowerCase (case res_content_type res of None \<Rightarrow> [] | Some c \<Rightarrow> c)
           in if res_status res = 401 \<or> res_status res = 403 \<or> res_redirected res
              then handleAuthFailure pg ''Not authenticated.''
              else if js_includes ct ''application/json''
              then (case res_json res of
                      None \<Rightarrow>
                        [ConsoleError ''Submission failed:'', Alert ''Submission failed. Check console.'']
                    | Some data \<Rightarrow>
                        if jd_success data then [CloseEntityModal, Reload]
                        else (case jd_errors data of
                                Some errors \<Rightarrow>
                                  showFormErrors errors @
                                  [Alert (or_else (first_message errors)
                                            ''Please fix the highlighted field.'')] @
                                  (case errors of [] \<Rightarrow> [] | e # _ \<Rightarrow> [MarkAndFocus (fst e)])
                              | None \<Rightarrow>
                                  if jd_html data \<noteq> [] then [ReplaceModal (jd_html data)]
                                  else [Alert ''Validation failed.'']))
              else if res_text res \<noteq> [] \<and> has_modal_marker (res_text res)
              then [ReplaceModal (res_text res)]
              else [Alert ''Server returned unexpected response. Reloading...'', Reload]))
     @ [SaveRestored]"

section \<open>Vocabulary of the properties\<close>

text \<open>
  The predicates in which the properties of the Validator, the Save-Gate, the installation
  and the Entity Router are worded, and two notions that only their proofs use.
\<close>

definition keeps_month_ends :: "browser \<Rightarrow> bool" where
  \<comment> \<open>the local time zone has the midnight that begins the last day of every month of the
      years 1900 to 9999\<close>
  "keeps_month_ends br =
     (\<forall>y mi. 1900 \<le> y \<and> y \<le> 9999 \<and> mi < 12 \<longrightarrow>
        getDate (local_date br \<lparr>fullYear = y, monthIndex = mi, dayOfMonth = month_days y mi\<rparr>) =
          month_days y mi)"

definition accepts :: "browser \<Rightarrow> string \<Rightarrow> string \<Rightarrow> bool" where
  \<comment> \<open>an input of type \<open>ty\<close> holds the string \<open>v\<close> once it is assigned, and still holds it
      once the input is made a text input\<close>
  "accepts br ty v = (assigned br ty v = v \<and> retyped br ty v = v)"

definition fails :: "browser \<Rightarrow> field \<Rightarrow> bool" where
  "fails br el =
     (\<not> skipped el \<and> (required_empty el \<or> bad_email el \<or> bad_date br el \<or> bad_aadhar el))"

definition first_failing_rule :: "browser \<Rightarrow> field \<Rightarrow> nat" where
  "first_failing_rule br el =
     (if required_empty el then 1 else if bad_email el then 2 else if bad_date br el then 3
      else if bad_aadhar el then 4 else 0)"

definition rule_message :: "nat \<Rightarrow> string" where
  "rule_message k =
     (if k = 1 then ''Please fill the required field.''
      else if k = 2 then ''Invalid email address.''
      else if k = 3 then ''Date must be dd/mm/yyyy.''
      else if k = 4 then ''Invalid Aadhaar format.''
      else [])"

definition passed :: validation where
  "passed = \<lparr>valid = True, firstEl = None, msg = []\<rparr>"





definition date_ok :: "browser \<Rightarrow> field \<Rightarrow> bool" where
  "date_ok br el =
     (length (js_trim (el_value el)) = 10 \<and> isValidDateDDMMYYYY br (js_trim (el_value el)))"

definition prefilled :: "field \<Rightarrow> bool" where
  \<comment> \<open>an empty input of class \<^verbatim>\<open>date-field\<close>\<close>
  "prefilled el =
     (el_tag el = Input \<and> ''date-field'' \<in> set (el_classes el) \<and> el_value el = [])"

definition formatDateFields_el :: "browser \<Rightarrow> field \<Rightarrow> field" where
  \<comment> \<open>what the date re-display alone makes of a field\<close>
  "formatDateFields_el br el = (if dateSel el then formatDateFields_input br el else el)"

definition no_entity_data :: "element \<Rightarrow> bool" where
  "no_entity_data el =
     (first_truthy [ds_openEntity el, ds_editEntity el, ds_deleteEntity el, ds_entity el] = [])"

definition no_id_data :: "element \<Rightarrow> bool" where
  \<comment> \<open>neither the element nor an ancestor carries a non-empty \<^verbatim>\<open>data-id\<close>\<close>
  "no_id_data el = (first_truthy [ds_id el, closest (ds_id el # anc_id el)] = [])"

definition end_ok :: "string \<Rightarrow> string \<Rightarrow> bool" where
  "end_ok m post = (m \<noteq> [] \<and> CHR ''/'' \<notin> set m \<and> (post = [] \<or> post = ''/''))"

definition last_seg :: "string \<Rightarrow> string" where
  "last_seg w =
     rev (takeWhile not_slash
            (case rev w of [] \<Rightarrow> [] | c # r \<Rightarrow> if c = CHR ''/'' then r else c # r))"

section \<open>Sample pages, forms and responses\<close>

text \<open>
  Concrete inputs, on which the properties are evaluated. The sample browser follows the HTML
  standard on the two input types the samples use, text and date: a date input keeps an
  assigned value only if it is a valid date string \<^verbatim>\<open>yyyy-mm-dd\<close> and is emptied
  otherwise; a text input drops line breaks. Its local time zone omits no day. The zone
  Pacific/Kiritimati has no 31 December 1994: that midnight reads back as 1 January 1995.
\<close>

definition all_digits :: "string \<Rightarrow> bool" where
  "all_digits s = list_all is_digit s"

definition valid_date_string :: "string \<Rightarrow> bool" where
  \<comment> \<open>a year of four or more digits that is not zero, a month, and a day of that month\<close>
  "valid_date_string v =
     (case js_split CHR ''-'' v of
        [y, m, d] \<Rightarrow>
          4 \<le> length y \<and> all_digits y \<and> 0 < js_Number y \<and>
          length m = 2 \<and> all_digits m \<and> 1 \<le> js_Number m \<and> js_Number m \<le> 12 \<and>
          length d = 2 \<and> all_digits d \<and> 1 \<le> js_Number d \<and>
          js_Number d \<le> days_in_month (js_Number y) (js_Number m)
      | _ \<Rightarrow> False)"

definition no_line_breaks :: "string \<Rightarrow> string" where
  "no_line_breaks v = filter (\<lambda>c. (of_char c :: nat) \<noteq> 10 \<and> (of_char c :: nat) \<noteq> 13) v"

definition sample_browser :: browser where
  "sample_browser =
     \<lparr>local_date = (\<lambda>d. d),
      assigned = (\<lambda>ty v. if ty = ''date'' then (if valid_date_string v then v else [])
                         else no_line_breaks v),
      retyped = (\<lambda>ty v. no_line_breaks v)\<rparr>"

definition kiritimati :: browser where
  "kiritimati =
     sample_browser
       \<lparr>local_date :=
          (\<lambda>d. if d = \<lparr>fullYear = 1994, monthIndex = 11, dayOfMonth = 31\<rparr>
                then \<lparr>fullYear = 1995, monthIndex = 0, dayOfMonth = 1\<rparr> else d)\<rparr>"

definition text_input :: field where
  "text_input =
     \<lparr>el_tag = Input, el_type = ''text'', el_name = ''x'', el_value = [], el_checked = False,
      el_disabled = False, el_offsetParent = True, el_clientRects = 1, el_in_hidden = False,
      el_required = False, el_data_required = None, el_aria_required = None,
      el_data_optional = None, el_data_type = None, el_classes = [], el_placeholder = None,
      el_pattern = None\<rparr>"




definition two_bad :: form where
  \<comment> \<open>an e-mail field that breaks three rules at once, before a required field left empty\<close>
  "two_bad =
     [text_input\<lparr>el_type := ''email'', el_name := ''aadhar_date'', el_value := ''x''\<rparr>,
      text_input\<lparr>el_required := True\<rparr>]"

definition optional_email :: field where
  "optional_email =
     text_input\<lparr>el_type := ''email'', el_name := ''email'', el_value := ''abc'',
                el_data_optional := Some ''true''\<rparr>"

definition skipped_then_bad :: form where
  "skipped_then_bad =
     [text_input\<lparr>el_type := ''email'', el_value := ''abc'', el_disabled := True\<rparr>,
      text_input\<lparr>el_required := True\<rparr>]"

definition dob_input :: field where
  "dob_input = text_input\<lparr>el_name := ''dob''\<rparr>"

definition bare_fragment :: "field list \<Rightarrow> fragment" where
  \<comment> \<open>a fragment with no modal root of its own, holding a form of the given fields\<close>
  "bare_fragment fs =
     \<lparr>frag_has_modal = False, frag_has_save = False,
      frag_form = Some \<lparr>fm_fields = fs, fm_action = [], fm_data_entity = None\<rparr>\<rparr>"

definition date_inputs :: "field list" where
  \<comment> \<open>two inputs of type date and class \<^verbatim>\<open>date-field\<close>, one empty and one holding a date\<close>
  "date_inputs =
     [text_input\<lparr>el_type := ''date'', el_classes := [''date-field'']\<rparr>,
      text_input\<lparr>el_type := ''date'', el_classes := [''date-field''], el_value := ''2024-02-29''\<rparr>]"

definition well_formed :: form where
  \<comment> \<open>a required e-mail address, a date and an identifier, all well formed\<close>
  "well_formed =
     [text_input\<lparr>el_type := ''email'', el_name := ''email'', el_value := ''a@b.co'',
                 el_required := True\<rparr>,
      text_input\<lparr>el_name := ''dob'', el_value := ''29/02/2024''\<rparr>,
      text_input\<lparr>el_name := ''aadhar'', el_value := ''1234 5678 9012''\<rparr>]"

definition today0 :: js_date where
  "today0 = \<lparr>fullYear = 2026, monthIndex = 10, dayOfMonth = 3\<rparr>"

definition two_inputs :: "field list" where
  "two_inputs = [text_input\<lparr>el_classes := [''date-field'']\<rparr>, text_input\<lparr>el_value := ''kept''\<rparr>]"

definition link :: "string \<Rightarrow> element" where
  \<comment> \<open>an anchor with the given \<^verbatim>\<open>href\<close> and nothing else: no data attribute, no id, no
      ancestor that carries one\<close>
  "link h =
     \<lparr>ds_openEntity = None, ds_editEntity = None, ds_deleteEntity = None, ds_entity = None,
      ds_id = None, at_id = [], at_href = Some h, anc_entity = [], anc_id = []\<rparr>"

definition create_btn_link :: element where
  "create_btn_link = (link ''/client/update/42/'')\<lparr>at_id := ''create-foo-btn''\<rparr>"

definition row_link :: element where
  \<comment> \<open>a link inside a table row that carries \<^verbatim>\<open>data-id="7"\<close>\<close>
  "row_link = (link ''/client/update/42/'')\<lparr>anc_id := [Some ''7'']\<rparr>"

definition master_page :: page where
  "master_page = \<lparr>body_role = Some (Some ''Master''), has_login_modal = True, has_login_error = True\<rparr>"

definition bare_page :: page where
  \<comment> \<open>a page that holds neither the login modal nor its error element\<close>
  "bare_page = \<lparr>body_role = Some None, has_login_modal = False, has_login_error = False\<rparr>"

definition staff_page :: page where
  "staff_page = \<lparr>body_role = Some (Some ''staff''), has_login_modal = True, has_login_error = True\<rparr>"

definition phone_errors :: json_data where
  \<comment> \<open>the body \<^verbatim>\<open>{success:false, errors:{"phone":["Invalid"]}}\<close>\<close>
  "phone_errors =
     \<lparr>jd_success = False, jd_errors = Some [(''phone'', MsgArray [''Invalid''])], jd_html = []\<rparr>"

definition json_response :: "nat \<Rightarrow> json_data \<Rightarrow> response" where
  "json_response st data =
     \<lparr>res_status = st, res_redirected = False, res_content_type = Some ''application/json'',
      res_json = Some data, res_text = []\<rparr>"



section \<open>Verification\<close>

subsection \<open>Facts about the date pattern\<close>

lemma rx_full_Nil: "rx_full [] s \<longleftrightarrow> s = []"
  by (cases s) simp_all

lemma rx_full_One: "rx_full (One p # r) s \<longleftrightarrow> (\<exists>c cs. s = c # cs \<and> p c \<and> rx_full r cs)"
  by (cases s) simp_all

lemma rx_date_iff:
  "rx_full rx_date s \<longleftrightarrow>
     (\<exists>a b c d e f g h. s = [a, b, CHR ''/'', c, d, CHR ''/'', e, f, g, h] \<and>
        is_digit a \<and> is_digit b \<and> is_digit c \<and> is_digit d \<and>
        is_digit e \<and> is_digit f \<and> is_digit g \<and> is_digit h)"
  unfolding rx_date_def lit_def rx_full_One rx_full_Nil by auto


lemma digit_not_slash: "is_digit c \<Longrightarrow> c \<noteq> CHR ''/''"
  by (auto simp: is_digit_def)

lemma month_cases: "1 \<le> m \<Longrightarrow> m \<le> 12 \<Longrightarrow> (m::nat) \<in> {1, 2, 3, 4, 5, 6, 7, 8, 9, 10, 11, 12}"
proof -
  assume a: "1 \<le> m" "m \<le> 12"
  have "{1..12::nat} = {1, 2, 3, 4, 5, 6, 7, 8, 9, 10, 11, 12}"
    by (simp add: atLeastAtMost_insertL[symmetric] eval_nat_numeral atLeastAtMostSuc_conv)
  moreover from a have "m \<in> {1..12}" by simp
  ultimately show ?thesis by blast
qed

lemma leap_iff: "DaysInYear y = 366 \<longleftrightarrow> leap_year y"
proof -
  have "y mod 100 = y mod 400 mod 100" by (simp add: mod_mod_cancel)
  then have a: "y mod 400 = 0 \<Longrightarrow> y mod 100 = 0" by simp
  have "y mod 4 = y mod 100 mod 4" by (simp add: mod_mod_cancel)
  then have b: "y mod 100 = 0 \<Longrightarrow> y mod 4 = 0" by simp
  show ?thesis unfolding DaysInYear_def leap_year_def using a b by auto
qed

lemma civil_last_day:
  assumes "1 \<le> m" "m \<le> 12"
  shows "civil_day0 y m = \<lparr>fullYear = y, monthIndex = m - 1, dayOfMonth = month_days y (m - 1)\<rparr>"
proof -
  from assms have "m \<in> {1, 2, 3, 4, 5, 6, 7, 8, 9, 10, 11, 12}" by (rule month_cases)
  then show ?thesis
    unfolding civil_day0_def Let_def by (elim insertE emptyE; simp)
qed

lemma month_days_eq:
  assumes "1 \<le> m" "m \<le> 12"
  shows "month_days y (m - 1) = days_in_month y m"
proof -
  from assms have "m \<in> {1, 2, 3, 4, 5, 6, 7, 8, 9, 10, 11, 12}" by (rule month_cases)
  then show ?thesis
    unfolding month_days_def days_in_month_def leap_iff by (elim insertE emptyE; simp)
qed

lemma dim_eq:
  assumes "keeps_month_ends br" "1900 \<le> y" "y \<le> 9999" "1 \<le> m" "m \<le> 12"
  shows "getDate (new_Date_day0 br y m) = days_in_month y m"
proof -
  from assms(4,5) have "m - 1 < 12" by simp
  with assms(1,2,3) have
    "getDate (local_date br \<lparr>fullYear = y, monthIndex = m - 1, dayOfMonth = month_days y (m - 1)\<rparr>) =
       month_days y (m - 1)"
    unfolding keeps_month_ends_def by blast
  then show ?thesis
    unfolding new_Date_day0_def civil_last_day[OF assms(4,5)] month_days_eq[OF assms(4,5)] .
qed

lemma split_date:
  assumes "is_digit a" "is_digit b" "is_digit c" "is_digit d"
    "is_digit e" "is_digit f" "is_digit g" "is_digit h"
  shows "js_split CHR ''/'' [a, b, CHR ''/'', c, d, CHR ''/'', e, f, g, h] = [[a, b], [c, d], [e, f, g, h]]"
  using assms by (simp add: digit_not_slash)

lemma length10:
  "length s = 10 \<Longrightarrow> \<exists>a b s1 c d s2 e f g h. s = [a, b, s1, c, d, s2, e, f, g, h]"
  by (simp add: eval_nat_numeral length_Suc_conv) blast

lemma shape_iff:
  "dd_mm_yyyy_shape s \<longleftrightarrow>
     (\<exists>a b c d e f g h. s = [a, b, CHR ''/'', c, d, CHR ''/'', e, f, g, h] \<and>
        is_digit a \<and> is_digit b \<and> is_digit c \<and> is_digit d \<and>
        is_digit e \<and> is_digit f \<and> is_digit g \<and> is_digit h)"
proof
  assume sh: "dd_mm_yyyy_shape s"
  then have "length s = 10" by (simp add: dd_mm_yyyy_shape_def)
  then obtain a b s1 c d s2 e f g h where s: "s = [a, b, s1, c, d, s2, e, f, g, h]"
    using length10[of s] by auto
  from sh show "\<exists>a b c d e f g h. s = [a, b, CHR ''/'', c, d, CHR ''/'', e, f, g, h] \<and>
        is_digit a \<and> is_digit b \<and> is_digit c \<and> is_digit d \<and>
        is_digit e \<and> is_digit f \<and> is_digit g \<and> is_digit h"
    unfolding s dd_mm_yyyy_shape_def by (simp add: eval_nat_numeral)
next
  assume "\<exists>a b c d e f g h. s = [a, b, CHR ''/'', c, d, CHR ''/'', e, f, g, h] \<and>
        is_digit a \<and> is_digit b \<and> is_digit c \<and> is_digit d \<and>
        is_digit e \<and> is_digit f \<and> is_digit g \<and> is_digit h"
  then obtain a b c d e f g h where s: "s = [a, b, CHR ''/'', c, d, CHR ''/'', e, f, g, h]"
    and dg: "is_digit a" "is_digit b" "is_digit c" "is_digit d"
      "is_digit e" "is_digit f" "is_digit g" "is_digit h" by blast
  show "dd_mm_yyyy_shape s"
    unfolding s dd_mm_yyyy_shape_def using dg by (simp add: eval_nat_numeral)
qed

lemma valid_iff:
  assumes k: "keeps_month_ends br"
  shows "isValidDateDDMMYYYY br s = calendar_valid s"
proof (cases "rx_full rx_date s")
  case False
  then have "\<not> dd_mm_yyyy_shape s" unfolding rx_date_iff shape_iff .
  with False show ?thesis unfolding isValidDateDDMMYYYY_def calendar_valid_def by simp
next
  case True
  then obtain a b c d e f g h where s: "s = [a, b, CHR ''/'', c, d, CHR ''/'', e, f, g, h]"
    and dg: "is_digit a" "is_digit b" "is_digit c" "is_digit d"
      "is_digit e" "is_digit f" "is_digit g" "is_digit h"
    unfolding rx_date_iff by blast
  have sh: "dd_mm_yyyy_shape s" using True unfolding rx_date_iff shape_iff .
  have sp: "js_split CHR ''/'' s = [[a, b], [c, d], [e, f, g, h]]"
    unfolding s using dg by (rule split_date)
  have parts: "take 2 s = [a, b]" "take 2 (drop 3 s) = [c, d]" "drop 6 s = [e, f, g, h]"
    unfolding s by (simp_all add: eval_nat_numeral)
  define dd where "dd = js_Number [a, b]"
  define mm where "mm = js_Number [c, d]"
  define yy where "yy = js_Number [e, f, g, h]"
  have code: "isValidDateDDMMYYYY br s =
      (if yy < 1900 \<or> yy > 9999 then False else if mm < 1 \<or> mm > 12 then False
       else dd \<ge> 1 \<and> dd \<le> getDate (new_Date_day0 br yy mm))"
    unfolding isValidDateDDMMYYYY_def sp dd_def mm_def yy_def using True by (simp add: Let_def)
  have spec: "calendar_valid s =
      (1900 \<le> yy \<and> yy \<le> 9999 \<and> 1 \<le> mm \<and> mm \<le> 12 \<and> 1 \<le> dd \<and> dd \<le> days_in_month yy mm)"
    unfolding calendar_valid_def parts dd_def mm_def yy_def using sh by (simp add: Let_def)
  show ?thesis
  proof (cases "1900 \<le> yy \<and> yy \<le> 9999 \<and> 1 \<le> mm \<and> mm \<le> 12")
    case True
    then have "getDate (new_Date_day0 br yy mm) = days_in_month yy mm"
      using dim_eq[OF k, of yy mm] by simp
    then show ?thesis unfolding code spec by auto
  next
    case False
    then show ?thesis unfolding code spec by auto
  qed
qed

lemmas date_eval =
  isValidDateDDMMYYYY_def rx_date_def lit_def is_digit_def js_Number_def digit_val_def
  getDate_def new_Date_day0_def civil_day0_def month_days_def DaysInYear_def sample_browser_def
  Let_def

lemmas calendar_eval =
  calendar_valid_def dd_mm_yyyy_shape_def days_in_month_def leap_year_def is_digit_def
  js_Number_def digit_val_def Let_def

lemma sample_keeps_month_ends: "keeps_month_ends sample_browser"
  by (simp add: keeps_month_ends_def sample_browser_def getDate_def)

text \<open>
  Claim C2, as amended. In a browser whose local time zone has the midnight that begins the
  last day of every month of the years 1900 to 9999, \<^verbatim>\<open>isValidDateDDMMYYYY(s)\<close> is true, for
  every string \<open>s\<close>, exactly when \<open>s\<close> has the shape \<^verbatim>\<open>\d\d/\d\d/\d\d\d\d\<close> with the year
  in 1900..9999, the month in 1..12 and the day between 1 and the number of days of that
  month in that year, leap years included. So \<^verbatim>\<open>29/02/2024\<close> is valid there, and
  \<^verbatim>\<open>29/02/2023\<close>, \<^verbatim>\<open>31/04/2020\<close> and \<^verbatim>\<open>01/01/1899\<close> are not.
\<close>

theorem isValidDateDDMMYYYY_calendar_valid:
  "keeps_month_ends br \<longrightarrow>
     (\<forall>s. isValidDateDDMMYYYY br s = calendar_valid s) \<and>
     isValidDateDDMMYYYY br ''29/02/2024'' \<and>
     \<not> isValidDateDDMMYYYY br ''29/02/2023'' \<and>
     \<not> isValidDateDDMMYYYY br ''31/04/2020'' \<and>
     \<not> isValidDateDDMMYYYY br ''01/01/1899''"
proof
  assume k: "keeps_month_ends br"
  have a: "calendar_valid ''29/02/2024''" by (simp add: calendar_eval)
  have b: "\<not> calendar_valid ''29/02/2023''" by (simp add: calendar_eval)
  have c: "\<not> calendar_valid ''31/04/2020''" by (simp add: calendar_eval)
  have d: "\<not> calendar_valid ''01/01/1899''" by (simp add: calendar_eval)
  from a b c d show "(\<forall>s. isValidDateDDMMYYYY br s = calendar_valid s) \<and>
     isValidDateDDMMYYYY br ''29/02/2024'' \<and>
     \<not> isValidDateDDMMYYYY br ''29/02/2023'' \<and>
     \<not> isValidDateDDMMYYYY br ''31/04/2020'' \<and>
     \<not> isValidDateDDMMYYYY br ''01/01/1899''"
    unfolding valid_iff[OF k] by simp
qed

theorem isValidDateDDMMYYYY_calendar_valid_witness:
  "keeps_month_ends sample_browser \<and>
   isValidDateDDMMYYYY sample_browser ''31/12/1999'' \<and> calendar_valid ''31/12/1999'' \<and>
   \<not> isValidDateDDMMYYYY sample_browser ''31/11/1999'' \<and> \<not> calendar_valid ''31/11/1999'' \<and>
   isValidDateDDMMYYYY sample_browser ''29/02/2024'' \<and>
   \<not> isValidDateDDMMYYYY sample_browser ''29/02/2023''"
proof -
  have a: "isValidDateDDMMYYYY sample_browser ''31/12/1999''" by (simp add: date_eval)
  have b: "\<not> isValidDateDDMMYYYY sample_browser ''31/11/1999''" by (simp add: date_eval)
  have c: "isValidDateDDMMYYYY sample_browser ''29/02/2024''" by (simp add: date_eval)
  have d: "\<not> isValidDateDDMMYYYY sample_browser ''29/02/2023''" by (simp add: date_eval)
  from a b c d sample_keeps_month_ends isValidDateDDMMYYYY_calendar_valid[of sample_browser]
  show ?thesis by simp
qed

text \<open>
  The claim as it is worded, for every browser, fails in the zone Pacific/Kiritimati, which
  has no 31 December 1994: the script finds December 1994 one day long and rejects the 15th
  and the 31st of that month.
\<close>

theorem isValidDateDDMMYYYY_zone_counterexample:
  "calendar_valid ''15/12/1994'' \<and> \<not> isValidDateDDMMYYYY kiritimati ''15/12/1994'' \<and>
   calendar_valid ''31/12/1994'' \<and> \<not> isValidDateDDMMYYYY kiritimati ''31/12/1994''"
  by (simp add: calendar_eval kiritimati_def date_eval)

subsection \<open>The Validator\<close>

lemma validate_loop_outcome:
  "(validate_loop br k fs = passed \<and> list_all (\<lambda>el. \<not> fails br el) fs) \<or>
   (\<exists>i. i < length fs \<and> fails br (fs ! i) \<and> list_all (\<lambda>el. \<not> fails br el) (take i fs) \<and>
      validate_loop br k fs = fail (k + i) (rule_message (first_failing_rule br (fs ! i))))"
proof (induction fs arbitrary: k)
  case Nil
  show ?case by (simp add: passed_def)
next
  case (Cons el rest)
  show ?case
  proof (cases "fails br el")
    case True
    then have "validate_loop br k (el # rest) = fail k (rule_message (first_failing_rule br el))"
      by (auto simp: fails_def first_failing_rule_def rule_message_def)
    with True show ?thesis by (intro disjI2 exI[of _ 0]) simp
  next
    case False
    then have step: "validate_loop br k (el # rest) = validate_loop br (Suc k) rest"
      by (auto simp: fails_def)
    from Cons.IH[of "Suc k"] show ?thesis
    proof
      assume "validate_loop br (Suc k) rest = passed \<and> list_all (\<lambda>el. \<not> fails br el) rest"
      with False step show ?thesis by simp
    next
      assume "\<exists>i<length rest. fails br (rest ! i) \<and>
        list_all (\<lambda>el. \<not> fails br el) (take i rest) \<and>
        validate_loop br (Suc k) rest =
          fail (Suc k + i) (rule_message (first_failing_rule br (rest ! i)))"
      then obtain i where i: "i < length rest" "fails br (rest ! i)"
        "list_all (\<lambda>el. \<not> fails br el) (take i rest)"
        "validate_loop br (Suc k) rest =
           fail (Suc k + i) (rule_message (first_failing_rule br (rest ! i)))"
        by blast
      with False step show ?thesis by (intro disjI2 exI[of _ "Suc i"]) simp
    qed
  qed
qed

lemma validate_loop_filter:
  "valid (validate_loop br k fs) = valid (validate_loop br k' (filter (\<lambda>el. \<not> skipped el) fs)) \<and>
   msg (validate_loop br k fs) = msg (validate_loop br k' (filter (\<lambda>el. \<not> skipped el) fs))"
  by (induction fs arbitrary: k k') (simp_all add: fail_def)

lemma validate_loop_firstEl:
  "firstEl (validate_loop br k fs) = Some i \<Longrightarrow>
     k \<le> i \<and> i - k < length fs \<and> \<not> skipped (fs ! (i - k))"
proof (induction fs arbitrary: k)
  case Nil
  then show ?case by simp
next
  case (Cons el rest)
  show ?case
  proof (cases "validate_loop br k (el # rest) = validate_loop br (Suc k) rest")
    case True
    with Cons.prems have "firstEl (validate_loop br (Suc k) rest) = Some i" by simp
    from Cons.IH[OF this] show ?thesis by (auto simp: Suc_diff_le nth_Cons')
  next
    case False
    then have "\<not> skipped el" and "firstEl (validate_loop br k (el # rest)) = Some k"
      by (auto simp: fail_def split: if_splits)
    with Cons.prems show ?thesis by simp
  qed
qed

lemma failing_message:
  "fails br el \<Longrightarrow>
     rule_message (first_failing_rule br el) =
       (if required_empty el then ''Please fill the required field.''
        else if bad_email el then ''Invalid email address.''
        else if bad_date br el then ''Date must be dd/mm/yyyy.''
        else ''Invalid Aadhaar format.'')"
  by (auto simp: fails_def first_failing_rule_def rule_message_def)

lemmas field_eval =
  text_input_def isVisible_def dateSel_def date_ok_def js_trim_def is_space_def
  recomputeSaveEnabled_def areAllVisibleFieldsFilled_def allDatesValid_def validateForm_def
  skipped_def required_empty_def required_def bad_email_def bad_date_def bad_aadhar_def
  date_like_def toLowerCase_def lower_char_def classList_toggle_def

lemmas validator_eval =
  field_eval fail_def passed_def fails_def first_failing_rule_def rule_message_def
  rx_email_def rx_aadhar_def not_space_at_def

text \<open>
  Claim C3. \<^verbatim>\<open>validateForm\<close> returns either the valid result (\<^verbatim>\<open>valid\<close> true, no element,
  empty message), and then no field fails, or exactly one failure: \<^verbatim>\<open>valid\<close> false, the
  element being the first field in document order that fails, and the message being that of
  the first rule that field breaks, the rules being taken in the order required-and-empty,
  e-mail shape, calendar-valid dd/mm/yyyy, identifier pattern \<^verbatim>\<open>\d{4}\s\d{4}\s\d{4}\<close>.
  Fields before the reported one do not fail; fields after it are not looked at, however
  many of them are invalid.
\<close>

theorem validateForm_first_failure:
  "(valid (validateForm br form) = True \<and> firstEl (validateForm br form) = None \<and>
    msg (validateForm br form) = [] \<and> list_all (\<lambda>el. \<not> fails br el) form) \<or>
   (\<exists>i. i < length form \<and> fails br (form ! i) \<and>
      list_all (\<lambda>el. \<not> fails br el) (take i form) \<and>
      valid (validateForm br form) = False \<and>
      firstEl (validateForm br form) = Some i \<and>
      msg (validateForm br form) =
        (if required_empty (form ! i) then ''Please fill the required field.''
         else if bad_email (form ! i) then ''Invalid email address.''
         else if bad_date br (form ! i) then ''Date must be dd/mm/yyyy.''
         else ''Invalid Aadhaar format.''))"
proof -
  from validate_loop_outcome[of br 0 form] show ?thesis
  proof
    assume "validate_loop br 0 form = passed \<and> list_all (\<lambda>el. \<not> fails br el) form"
    then show ?thesis unfolding validateForm_def by (simp add: passed_def)
  next
    assume "\<exists>i<length form. fails br (form ! i) \<and>
      list_all (\<lambda>el. \<not> fails br el) (take i form) \<and>
      validate_loop br 0 form = fail (0 + i) (rule_message (first_failing_rule br (form ! i)))"
    then obtain i where i: "i < length form" "fails br (form ! i)"
      "list_all (\<lambda>el. \<not> fails br el) (take i form)"
      "validate_loop br 0 form = fail (0 + i) (rule_message (first_failing_rule br (form ! i)))"
      by blast
    have "valid (validateForm br form) = False \<and> firstEl (validateForm br form) = Some i \<and>
      msg (validateForm br form) =
        (if required_empty (form ! i) then ''Please fill the required field.''
         else if bad_email (form ! i) then ''Invalid email address.''
         else if bad_date br (form ! i) then ''Date must be dd/mm/yyyy.''
         else ''Invalid Aadhaar format.'')"
      unfolding validateForm_def i(4) failing_message[OF i(2)] by (simp add: fail_def)
    with i(1,2,3) show ?thesis by (intro disjI2 exI[of _ i] conjI) simp_all
  qed
qed

theorem validateForm_first_failure_witness:
  "fails sample_browser (two_bad ! 0) \<and> fails sample_browser (two_bad ! 1) \<and>
   \<not> required_empty (two_bad ! 0) \<and> bad_email (two_bad ! 0) \<and>
   bad_date sample_browser (two_bad ! 0) \<and> bad_aadhar (two_bad ! 0) \<and>
   valid (validateForm sample_browser two_bad) = False \<and>
   firstEl (validateForm sample_browser two_bad) = Some 0 \<and>
   msg (validateForm sample_browser two_bad) = ''Invalid email address.'' \<and>
   list_all (\<lambda>el. \<not> fails sample_browser el) well_formed \<and>
   valid (validateForm sample_browser well_formed) = True \<and>
   firstEl (validateForm sample_browser well_formed) = None \<and>
   msg (validateForm sample_browser well_formed) = []"
proof -
  have a: "fails sample_browser (two_bad ! 0) \<and> fails sample_browser (two_bad ! 1) \<and>
   \<not> required_empty (two_bad ! 0) \<and> bad_email (two_bad ! 0) \<and>
   bad_date sample_browser (two_bad ! 0) \<and> bad_aadhar (two_bad ! 0)"
    by (simp add: two_bad_def validator_eval date_eval)
  have c: "list_all (\<lambda>el. \<not> fails sample_browser el) well_formed"
    by (simp add: well_formed_def validator_eval date_eval)
  have e: "valid (validateForm sample_browser two_bad) = False \<and>
   firstEl (validateForm sample_browser two_bad) = Some 0 \<and>
   msg (validateForm sample_browser two_bad) = ''Invalid email address.''"
    by (simp add: two_bad_def validator_eval date_eval)
  have f: "valid (validateForm sample_browser well_formed) = True \<and>
   firstEl (validateForm sample_browser well_formed) = None \<and>
   msg (validateForm sample_browser well_formed) = []"
    by (simp add: well_formed_def validator_eval date_eval)
  from validateForm_first_failure[of sample_browser two_bad] a c e f show ?thesis by simp
qed

text \<open>
  Claim C4, as amended. A field that is disabled, has type hidden, or lies in an element
  with the \<^verbatim>\<open>hidden\<close> attribute is skipped entirely by the Validator, whatever its
  category: it is never the reported field, and the outcome is the one of the form without
  such fields. The optional mark \<^verbatim>\<open>data-optional="true"\<close> is not among the grounds:
  the Validator checks an optional field like any other.
\<close>

theorem validateForm_skips:
  "valid (validateForm br form) = valid (validateForm br (filter (\<lambda>el. \<not> skipped el) form)) \<and>
   msg (validateForm br form) = msg (validateForm br (filter (\<lambda>el. \<not> skipped el) form)) \<and>
   (\<forall>i. firstEl (validateForm br form) = Some i \<longrightarrow> i < length form \<and> \<not> skipped (form ! i))"
proof -
  have "firstEl (validateForm br form) = Some i \<Longrightarrow> i < length form \<and> \<not> skipped (form ! i)" for i
    using validate_loop_firstEl[of br 0 form i] by (simp add: validateForm_def)
  with validate_loop_filter[of br 0 form 0] show ?thesis
    by (simp add: validateForm_def)
qed

theorem validateForm_skips_witness:
  "skipped (skipped_then_bad ! 0) \<and> bad_email (skipped_then_bad ! 0) \<and>
   validateForm sample_browser skipped_then_bad = fail 1 ''Please fill the required field.'' \<and>
   validateForm sample_browser (filter (\<lambda>el. \<not> skipped el) skipped_then_bad) =
     fail 0 ''Please fill the required field.''"
proof -
  have "skipped (skipped_then_bad ! 0) \<and> bad_email (skipped_then_bad ! 0) \<and>
   validateForm sample_browser skipped_then_bad = fail 1 ''Please fill the required field.'' \<and>
   validateForm sample_browser (filter (\<lambda>el. \<not> skipped el) skipped_then_bad) =
     fail 0 ''Please fill the required field.''"
    by (simp add: skipped_then_bad_def validator_eval date_eval)
  with validateForm_skips[of sample_browser skipped_then_bad] show ?thesis by simp
qed

text \<open>
  The claim as it is worded fails on an optional e-mail field with a malformed address: the
  Validator reports it.
\<close>

theorem validateForm_optional_counterexample:
  "el_data_optional optional_email = Some ''true'' \<and>
   validateForm sample_browser [optional_email] = fail 0 ''Invalid email address.''"
  by (simp add: optional_email_def validator_eval date_eval)

subsection \<open>The Save-Gate\<close>








subsection \<open>Dates between display and transmission\<close>

lemma digit_not_space: "is_digit c \<Longrightarrow> \<not> is_space c"
  by (auto simp: is_digit_def is_space_def)

lemma digit_not_dash: "is_digit c \<Longrightarrow> c \<noteq> CHR ''-''"
  by (auto simp: is_digit_def)

lemma valid_date_shape: "isValidDateDDMMYYYY br d \<Longrightarrow> rx_full rx_date d"
  unfolding isValidDateDDMMYYYY_def by (cases "rx_full rx_date d") simp_all

lemma round_trip_shape:
  assumes "rx_full rx_date d" and acc: "accepts br (el_type inp) d"
  shows "\<exists>t. transmitted d = Some t \<and> rx_full rx_iso t \<and>
     el_value (formatDateFields_input br (inp\<lparr>el_value := t\<rparr>)) = d"
proof -
  from assms(1) obtain a b c e f g h i where d: "d = [a, b, CHR ''/'', c, e, CHR ''/'', f, g, h, i]"
    and dg: "is_digit a" "is_digit b" "is_digit c" "is_digit e"
      "is_digit f" "is_digit g" "is_digit h" "is_digit i"
    unfolding rx_date_iff by blast
  have tr: "js_trim d = d"
    unfolding d js_trim_def using dg by (simp add: digit_not_space)
  define t where "t = [f, g, h, i, CHR ''-'', c, e, CHR ''-'', a, b]"
  have tm: "transmitted d = Some t"
    unfolding transmitted_def tr Let_def using assms(1) by (simp add: d t_def)
  have iso: "rx_full rx_iso t"
    unfolding t_def rx_iso_def lit_def using dg by simp
  have inc: "js_includes t ''-''" unfolding t_def by simp
  have ne: "t \<noteq> []" unfolding t_def by simp
  have sp: "js_split CHR ''-'' t = [[f, g, h, i], [c, e], [a, b]]"
    unfolding t_def using dg by (simp add: digit_not_dash)
  from acc have asg: "assigned br (el_type inp) d = d" and ret: "retyped br (el_type inp) d = d"
    unfolding accepts_def by simp_all
  have "el_value (formatDateFields_input br (inp\<lparr>el_value := t\<rparr>)) = d"
    unfolding formatDateFields_input_def Let_def using iso inc ne
    by (simp add: sp asg[unfolded d] ret[unfolded d] d)
  with tm iso show ?thesis by blast
qed

lemma date_round_trip_accepted:
  assumes "isValidDateDDMMYYYY br d" and "accepts br (el_type inp) d"
  shows "\<exists>t. transmitted d = Some t \<and> rx_full rx_iso t \<and>
         normalize_dates [inp\<lparr>el_value := d\<rparr>] fd = fd_set (el_name inp) t fd \<and>
         el_value (formatDateFields_input br (inp\<lparr>el_value := t\<rparr>)) = d \<and>
         (dateSel inp \<longrightarrow> map el_value (formatDateFields br [inp\<lparr>el_value := t\<rparr>]) = [d])"
proof -
  from assms(1) have "rx_full rx_date d" by (rule valid_date_shape)
  from round_trip_shape[OF this assms(2)] obtain t where t: "transmitted d = Some t"
    "rx_full rx_iso t" "el_value (formatDateFields_input br (inp\<lparr>el_value := t\<rparr>)) = d"
    by blast
  have n: "normalize_dates [inp\<lparr>el_value := d\<rparr>] fd = fd_set (el_name inp) t fd"
    using t(1) by simp
  have f: "dateSel inp \<longrightarrow> map el_value (formatDateFields br [inp\<lparr>el_value := t\<rparr>]) = [d]"
    using t(3) by (simp add: formatDateFields_def dateSel_def)
  show ?thesis
    by (rule exI[of _ t]) (intro conjI t n f)
qed

lemmas display_eval =
  formatDateFields_def formatDateFields_input_def dateSel_def dob_input_def text_input_def
  rx_iso_def lit_def is_digit_def valid_date_string_def no_line_breaks_def all_digits_def
  sample_browser_def Let_def

text \<open>
  Claim C9. For every calendar-valid date \<open>d\<close> in the display form dd/mm/yyyy, the save
  handler transmits a yyyy-mm-dd string for an input holding \<open>d\<close>, and
  \<^verbatim>\<open>formatDateFields\<close>, given an input holding that string, shows \<open>d\<close> again, character
  for character. The script does so on an input whose type holds the display string, a text
  input (\<open>date_round_trip_accepted\<close>). On an input of type date it does not: it assigns
  the display string while the input still has the type date, which keeps no such string,
  and makes the input a text input only after that. For the date \<^verbatim>\<open>29/02/2024\<close>, sent as
  \<^verbatim>\<open>2024-02-29\<close>, the date input that holds \<^verbatim>\<open>2024-02-29\<close> ends as an empty text
  input, where the text input that holds the same string ends with \<^verbatim>\<open>29/02/2024\<close>.
\<close>

theorem formatDateFields_date_input:
  "isValidDateDDMMYYYY sample_browser ''29/02/2024'' \<and>
   transmitted ''29/02/2024'' = Some ''2024-02-29'' \<and>
   dateSel (dob_input\<lparr>el_type := ''date'', el_value := ''2024-02-29''\<rparr>) \<and>
   map el_value
     (formatDateFields sample_browser [dob_input\<lparr>el_type := ''date'', el_value := ''2024-02-29''\<rparr>]) =
     [[]] \<and>
   map el_type
     (formatDateFields sample_browser [dob_input\<lparr>el_type := ''date'', el_value := ''2024-02-29''\<rparr>]) =
     [''text''] \<and>
   map el_value (formatDateFields sample_browser [dob_input\<lparr>el_value := ''2024-02-29''\<rparr>]) =
     [''29/02/2024'']"
proof -
  have v: "isValidDateDDMMYYYY sample_browser ''29/02/2024''" by (simp add: date_eval)
  have t: "transmitted ''29/02/2024'' = Some ''2024-02-29''"
    by (simp add: transmitted_def js_trim_def is_space_def date_eval)
  have s: "dateSel (dob_input\<lparr>el_type := ''date'', el_value := ''2024-02-29''\<rparr>)"
    by (simp add: dob_input_def text_input_def dateSel_def)
  have a: "map el_value
     (formatDateFields sample_browser [dob_input\<lparr>el_type := ''date'', el_value := ''2024-02-29''\<rparr>]) =
     [[]]"
    by (simp add: display_eval)
  have b: "map el_type
     (formatDateFields sample_browser [dob_input\<lparr>el_type := ''date'', el_value := ''2024-02-29''\<rparr>]) =
     [''text'']"
    by (simp add: display_eval)
  have c: "map el_value (formatDateFields sample_browser [dob_input\<lparr>el_value := ''2024-02-29''\<rparr>]) =
     [''29/02/2024'']"
    by (simp add: display_eval)
  from v t s a b c show ?thesis by (intro conjI)
qed

subsection \<open>Installing a form fragment\<close>

lemma rx_iso_no_slash: "rx_full rx_iso s \<Longrightarrow> CHR ''/'' \<notin> set s"
  unfolding rx_iso_def lit_def rx_full_One rx_full_Nil
  by (auto dest: digit_not_slash)

lemma formatted_has_slash: "CHR ''/'' \<in> set (formatted today)"
  by (simp add: formatted_def)

lemma format_other: "\<not> dateSel el \<Longrightarrow> formatDateFields_el br el = el"
  by (simp add: formatDateFields_el_def)

lemma format_value_cases:
  "el_value (formatDateFields_el br el) = el_value el \<or> rx_full rx_iso (el_value el) \<or>
   (dateSel el \<and> el_value (formatDateFields_el br el) = retyped br (el_type el) (el_value el))"
  by (auto simp: formatDateFields_el_def formatDateFields_input_def Let_def split: list.splits)

lemma format_kept:
  assumes "\<not> rx_full rx_iso (el_value el)" and "accepts br (el_type el) (el_value el)"
  shows "el_value (formatDateFields_el br el) = el_value el"
  using format_value_cases[of br el] assms by (auto simp: accepts_def)

lemma format_formatted:
  assumes "accepts br (el_type el) (formatted today)"
  shows "el_value (formatDateFields_el br (el\<lparr>el_value := assigned br (el_type el) (formatted today)\<rparr>)) =
     formatted today"
proof -
  from assms have a: "assigned br (el_type el) (formatted today) = formatted today"
    by (simp add: accepts_def)
  have "\<not> rx_full rx_iso (formatted today)"
    using rx_iso_no_slash[of "formatted today"] formatted_has_slash[of today] by blast
  with format_kept[of "el\<lparr>el_value := formatted today\<rparr>" br] assms show ?thesis
    unfolding a by simp
qed

lemma formatDateFields_map: "formatDateFields br fs = map (formatDateFields_el br) fs"
  by (simp add: formatDateFields_def formatDateFields_el_def)

lemma mark_length: "length (mark e f) = length f"
  by (simp add: mark_def split: option.splits)

lemma mark_value: "el_value (mark e f ! i) = el_value (f ! i)"
  by (auto simp: mark_def nth_list_update split: option.splits)

lemma recompute_marks_length: "length (recompute_marks br f) = length f"
  by (simp add: recompute_marks_def mark_length)

lemma recompute_marks_value: "el_value (recompute_marks br f ! i) = el_value (f ! i)"
  by (simp add: recompute_marks_def mark_value)

lemma recompute_marks_values: "map el_value (recompute_marks br f) = map el_value f"
  by (simp add: list_eq_iff_nth_eq recompute_marks_length recompute_marks_value)

text \<open>
  Claim C8, as amended. When a create-mode fragment that has no modal root of its own is
  installed into the generic modal skeleton, every empty input of class \<^verbatim>\<open>date-field\<close>
  whose type holds the string (a text input) ends with the current date, written as
  two-digit day, two-digit month and year. A field that holds a value is left to the date
  re-display alone, which every installation runs, and so keeps its value unless that is a
  yyyy-mm-dd string. In edit mode nothing is pre-filled: every field ends with the value the
  date re-display alone gives it, an empty one empty.
\<close>

theorem insertEntityModal_prefill:
  assumes "\<not> frag_has_modal frag" and "frag_form frag = Some fm"
  shows "\<exists>fm' fm''.
      insertEntityModal br pathname today entity frag ''Create'' ident = Some fm' \<and>
      insertEntityModal br pathname today entity frag ''Edit'' ident = Some fm'' \<and>
      length (fm_fields fm') = length (fm_fields fm) \<and>
      length (fm_fields fm'') = length (fm_fields fm) \<and>
      (\<forall>i<length (fm_fields fm).
          (prefilled (fm_fields fm ! i) \<and>
           accepts br (el_type (fm_fields fm ! i)) (formatted today)
             \<longrightarrow> el_value (fm_fields fm' ! i) = formatted today) \<and>
          (el_value (fm_fields fm ! i) \<noteq> []
             \<longrightarrow> el_value (fm_fields fm' ! i) =
                   el_value (formatDateFields_el br (fm_fields fm ! i))) \<and>
          (el_value (fm_fields fm ! i) \<noteq> [] \<and> \<not> rx_full rx_iso (el_value (fm_fields fm ! i)) \<and>
           accepts br (el_type (fm_fields fm ! i)) (el_value (fm_fields fm ! i))
             \<longrightarrow> el_value (fm_fields fm' ! i) = el_value (fm_fields fm ! i)) \<and>
          el_value (fm_fields fm'' ! i) = el_value (formatDateFields_el br (fm_fields fm ! i)) \<and>
          (el_value (fm_fields fm ! i) = [] \<and> accepts br (el_type (fm_fields fm ! i)) []
             \<longrightarrow> el_value (fm_fields fm'' ! i) = []))"
proof -
  let ?base = "getEntityBase pathname entity"
  let ?c = "set_target ?base entity ''Create'' ident fm"
  let ?e = "set_target ?base entity ''Edit'' ident fm"
  let ?fm' = "?c\<lparr>fm_fields :=
      recompute_marks br (formatDateFields br (prefill br today (fm_fields fm)))\<rparr>"
  let ?fm'' = "?e\<lparr>fm_fields := recompute_marks br (formatDateFields br (fm_fields fm))\<rparr>"
  have fc: "fm_fields ?c = fm_fields fm" and fe: "fm_fields ?e = fm_fields fm"
    by (simp_all add: set_target_def Let_def)
  have c: "insertEntityModal br pathname today entity frag ''Create'' ident = Some ?fm'"
    using assms by (simp add: insertEntityModal_def Let_def fc)
  have e: "insertEntityModal br pathname today entity frag ''Edit'' ident = Some ?fm''"
    using assms by (simp add: insertEntityModal_def Let_def fe)
  have l: "length (fm_fields ?fm') = length (fm_fields fm)"
    "length (fm_fields ?fm'') = length (fm_fields fm)"
    by (simp_all add: recompute_marks_length formatDateFields_def prefill_def)
  have p: "(prefilled (fm_fields fm ! i) \<and>
           accepts br (el_type (fm_fields fm ! i)) (formatted today)
             \<longrightarrow> el_value (fm_fields ?fm' ! i) = formatted today) \<and>
          (el_value (fm_fields fm ! i) \<noteq> []
             \<longrightarrow> el_value (fm_fields ?fm' ! i) =
                   el_value (formatDateFields_el br (fm_fields fm ! i))) \<and>
          (el_value (fm_fields fm ! i) \<noteq> [] \<and> \<not> rx_full rx_iso (el_value (fm_fields fm ! i)) \<and>
           accepts br (el_type (fm_fields fm ! i)) (el_value (fm_fields fm ! i))
             \<longrightarrow> el_value (fm_fields ?fm' ! i) = el_value (fm_fields fm ! i)) \<and>
          el_value (fm_fields ?fm'' ! i) = el_value (formatDateFields_el br (fm_fields fm ! i)) \<and>
          (el_value (fm_fields fm ! i) = [] \<and> accepts br (el_type (fm_fields fm ! i)) []
             \<longrightarrow> el_value (fm_fields ?fm'' ! i) = [])"
    if i: "i < length (fm_fields fm)" for i
  proof -
    define el where "el = fm_fields fm ! i"
    have a: "el_value (fm_fields ?fm' ! i) =
        el_value (formatDateFields_el br
          (if prefilled el then el\<lparr>el_value := assigned br (el_type el) (formatted today)\<rparr>
           else el))"
      using i by (simp add: recompute_marks_value formatDateFields_map prefill_def prefilled_def el_def)
    have b: "el_value (fm_fields ?fm'' ! i) = el_value (formatDateFields_el br el)"
      using i by (simp add: recompute_marks_value formatDateFields_map el_def)
    have np: "el_value el \<noteq> [] \<Longrightarrow> \<not> prefilled el" by (simp add: prefilled_def)
    have k: "el_value el = [] \<Longrightarrow> accepts br (el_type el) [] \<Longrightarrow>
        el_value (formatDateFields_el br el) = []"
      using format_kept[of el br] rx_iso_no_slash[of "[]"] by (auto simp: rx_iso_def lit_def)
    show ?thesis
      unfolding a b el_def[symmetric]
      using format_kept[of el br] format_formatted[of br el today] np k
      by auto
  qed
  show ?thesis
    by (rule exI[of _ ?fm'], rule exI[of _ ?fm'']) (use c e l p in blast)
qed

lemmas install_eval =
  insertEntityModal_def bare_fragment_def set_target_def getEntityBase_def
  encodeURIComponent_def uri_unreserved_def prefill_def formatted_def padStart2_def js_String.simps
  digit_char_def formatDateFields_def formatDateFields_input_def today0_def
  dateSel_def text_input_def toLowerCase_def lower_char_def is_space_def
  rx_iso_def lit_def is_digit_def char_of_def bit_Suc_0_iff
  valid_date_string_def no_line_breaks_def all_digits_def sample_browser_def
  recompute_marks_values Let_def

lemma formatted_today0: "formatted today0 = ''03/11/2026''"
  by (simp add: formatted_def padStart2_def js_String.simps digit_char_def today0_def char_of_def
      bit_Suc_0_iff)

theorem insertEntityModal_prefill_witness:
  "\<not> frag_has_modal (bare_fragment two_inputs) \<and>
   prefilled (two_inputs ! 0) \<and>
   accepts sample_browser (el_type (two_inputs ! 0)) (formatted today0) \<and>
   accepts sample_browser (el_type (two_inputs ! 0)) [] \<and>
   accepts sample_browser (el_type (two_inputs ! 1)) (el_value (two_inputs ! 1)) \<and>
   map_option (\<lambda>fm. map el_value (fm_fields fm))
     (insertEntityModal sample_browser ''/client/'' today0 ''client'' (bare_fragment two_inputs)
        ''Create'' []) =
     Some [''03/11/2026'', ''kept''] \<and>
   map_option (\<lambda>fm. map el_value (fm_fields fm))
     (insertEntityModal sample_browser ''/client/'' today0 ''client'' (bare_fragment two_inputs)
        ''Edit'' ''7'') =
     Some [[], ''kept'']"
proof -
  have a: "\<not> frag_has_modal (bare_fragment two_inputs)"
    and b: "frag_form (bare_fragment two_inputs) =
      Some \<lparr>fm_fields = two_inputs, fm_action = [], fm_data_entity = None\<rparr>"
    by (simp_all add: bare_fragment_def)
  have h: "prefilled (two_inputs ! 0) \<and>
   accepts sample_browser (el_type (two_inputs ! 0)) (formatted today0) \<and>
   accepts sample_browser (el_type (two_inputs ! 0)) [] \<and>
   accepts sample_browser (el_type (two_inputs ! 1)) (el_value (two_inputs ! 1))"
    by (simp add: two_inputs_def prefilled_def accepts_def formatted_today0 text_input_def
        sample_browser_def no_line_breaks_def)
  have c: "map_option (\<lambda>fm. map el_value (fm_fields fm))
     (insertEntityModal sample_browser ''/client/'' today0 ''client'' (bare_fragment two_inputs)
        ''Create'' []) =
     Some [''03/11/2026'', ''kept'']"
    by (simp add: two_inputs_def install_eval)
  have d: "map_option (\<lambda>fm. map el_value (fm_fields fm))
     (insertEntityModal sample_browser ''/client/'' today0 ''client'' (bare_fragment two_inputs)
        ''Edit'' ''7'') =
     Some [[], ''kept'']"
    by (simp add: two_inputs_def install_eval)
  from insertEntityModal_prefill[OF a b, of sample_browser "''/client/''" today0 "''client''" "[]"]
    a h c d
  show ?thesis by simp
qed

text \<open>
  The claim as it is worded fails on a date input that the script treats as a date by its
  name, without the class \<^verbatim>\<open>date-field\<close>: create mode leaves it empty.
\<close>

theorem insertEntityModal_prefill_counterexample:
  "dateSel dob_input \<and> el_type dob_input = ''text'' \<and> el_value dob_input = [] \<and>
   map_option (\<lambda>fm. map el_value (fm_fields fm))
     (insertEntityModal sample_browser ''/client/'' today0 ''client'' (bare_fragment [dob_input])
        ''Create'' []) =
     Some [[]]"
  by (simp add: dob_input_def install_eval)

text \<open>
  Inputs of type date are outside the amended claim. In the sample browser the installation
  leaves both of them empty text inputs, the one that was empty and the one that held a
  date: the date input keeps neither the current date nor the re-displayed one.
\<close>

lemma insertEntityModal_date_inputs:
  "map_option (\<lambda>fm. map el_value (fm_fields fm))
     (insertEntityModal sample_browser ''/client/'' today0 ''client'' (bare_fragment date_inputs)
        ''Create'' []) =
     Some [[], []]"
  by (simp add: date_inputs_def install_eval)

subsection \<open>The Entity Router\<close>

lemma startsWith_append: "startsWith (a @ b) a"
  by (induction a) simp_all

lemma startsWith_refl: "startsWith a a"
  using startsWith_append[of a "[]"] by simp

lemma startsWith_iff: "startsWith s p \<longleftrightarrow> (\<exists>t. s = p @ t)"
proof (induction s p rule: startsWith.induct)
  case (1 s) show ?case by simp
next
  case (2 p ps) show ?case by simp
next
  case (3 c cs p ps) then show ?case by auto
qed

lemma takeWhile_segment:
  "CHR ''/'' \<notin> set seg \<Longrightarrow> takeWhile not_slash (seg @ CHR ''/'' # r) = seg"
  by (induction seg) (auto simp: not_slash_def)

lemma dropWhile_segment:
  "CHR ''/'' \<notin> set seg \<Longrightarrow> dropWhile not_slash (seg @ CHR ''/'' # r) = CHR ''/'' # r"
  by (induction seg) (auto simp: not_slash_def)

lemma takeWhile_all: "CHR ''/'' \<notin> set seg \<Longrightarrow> takeWhile not_slash seg = seg"
  by (induction seg) (auto simp: not_slash_def)

lemma dropWhile_all: "CHR ''/'' \<notin> set seg \<Longrightarrow> dropWhile not_slash seg = []"
  by (induction seg) (auto simp: not_slash_def)

lemma href_entity_form:
  assumes "ent \<noteq> []" "CHR ''/'' \<notin> set ent"
    and "toLowerCase op \<in> set [''get'', ''create'', ''update'', ''delete'']"
    and "rest = [] \<or> hd rest = CHR ''/''"
  shows "href_entity (''/'' @ ent @ ''/'' @ op @ rest) = Some ent"
proof -
  have o: "op_then_end (op @ rest) (toLowerCase op)"
    unfolding op_then_end_def using assms(4)
    by (cases rest) (simp_all add: toLowerCase_def startsWith_append startsWith_refl)
  then have "list_ex (op_then_end (op @ rest)) [''get'', ''create'', ''update'', ''delete'']"
    using assms(3) unfolding list_ex_iff by blast
  then show ?thesis
    using assms(1,2)
    by (simp add: href_entity_def takeWhile_segment dropWhile_segment Let_def)
qed


lemma id_after_Some:
  assumes "id_after r op = Some m"
  shows "\<exists>x post. r = x @ CHR ''/'' # m @ post \<and> end_ok m post"
proof -
  from assms obtain r2 where d: "drop (length op) r = CHR ''/'' # r2"
    and m: "m = takeWhile not_slash r2" and ne: "m \<noteq> []"
    and post: "dropWhile not_slash r2 = [] \<or> dropWhile not_slash r2 = ''/''"
    by (auto simp: id_after_def Let_def split: if_splits list.splits)
  have "r = take (length op) r @ drop (length op) r" by simp
  also have "\<dots> = take (length op) r @ CHR ''/'' # m @ dropWhile not_slash r2"
    unfolding d m by simp
  finally have r: "r = take (length op) r @ CHR ''/'' # m @ dropWhile not_slash r2" .
  have "CHR ''/'' \<notin> set m"
    unfolding m using set_takeWhileD[of "CHR ''/''" not_slash r2] by (auto simp: not_slash_def)
  with r ne post show ?thesis unfolding end_ok_def by blast
qed

lemma id_at_Some:
  assumes "id_at s = Some m"
  shows "\<exists>x post. s = x @ CHR ''/'' # m @ post \<and> end_ok m post"
proof -
  from assms obtain r op where s: "s = CHR ''/'' # r" and a: "id_after r op = Some m"
    by (auto simp: id_at_def split: list.splits if_splits option.splits)
  from id_after_Some[OF a] obtain x post where "r = x @ CHR ''/'' # m @ post" "end_ok m post" by blast
  then have "s = (CHR ''/'' # x) @ CHR ''/'' # m @ post \<and> end_ok m post" using s by simp
  then show ?thesis by blast
qed

lemma last_seg_eq:
  assumes "end_ok m post"
  shows "last_seg (x @ CHR ''/'' # m @ post) = m"
proof -
  from assms have ne: "m \<noteq> []" and ns: "CHR ''/'' \<notin> set (rev m)"
    and post: "post = [] \<or> post = ''/''" by (auto simp: end_ok_def)
  from ne obtain c r where rm: "rev m = c # r" by (cases "rev m") auto
  with ns have c: "c \<noteq> CHR ''/''" by auto
  have tw: "takeWhile not_slash (rev m @ CHR ''/'' # rev x) = rev m"
    using ns by (rule takeWhile_segment)
  from post show ?thesis
  proof
    assume "post = []"
    then have "rev (x @ CHR ''/'' # m @ post) = c # (r @ CHR ''/'' # rev x)" using rm by simp
    then show ?thesis unfolding last_seg_def using c tw rm by simp
  next
    assume "post = ''/''"
    then have "rev (x @ CHR ''/'' # m @ post) = CHR ''/'' # (rev m @ CHR ''/'' # rev x)" by simp
    then show ?thesis unfolding last_seg_def using tw by simp
  qed
qed

lemma id_at_unique:
  assumes "id_at u = Some m" and "u = y @ CHR ''/'' # seg @ tail" and "end_ok seg tail"
  shows "m = seg"
proof -
  from id_at_Some[OF assms(1)] obtain x post where u: "u = x @ CHR ''/'' # m @ post" and e: "end_ok m post"
    by blast
  have "m = last_seg u" unfolding u using e by (simp add: last_seg_eq)
  also have "\<dots> = seg" unfolding assms(2) using assms(3) by (simp add: last_seg_eq)
  finally show ?thesis .
qed

lemma id_after_here:
  assumes "end_ok seg tail"
  shows "id_after (op @ CHR ''/'' # seg @ tail) (toLowerCase op) = Some seg"
proof -
  from assms have ne: "seg \<noteq> []" and ns: "CHR ''/'' \<notin> set seg"
    and post: "tail = [] \<or> tail = ''/''" by (auto simp: end_ok_def)
  have sw: "startsWith (toLowerCase (op @ CHR ''/'' # seg @ tail)) (toLowerCase op)"
    by (simp add: toLowerCase_def startsWith_append)
  have dr: "drop (length (toLowerCase op)) (op @ CHR ''/'' # seg @ tail) = CHR ''/'' # seg @ tail"
    by (simp add: toLowerCase_def)
  from post have tw: "takeWhile not_slash (seg @ tail) = seg \<and>
      (dropWhile not_slash (seg @ tail) = [] \<or> dropWhile not_slash (seg @ tail) = ''/'')"
  proof
    assume "tail = []"
    then show ?thesis using takeWhile_all[OF ns] dropWhile_all[OF ns] by (simp only: append_Nil2 simp_thms)
  next
    assume "tail = ''/''"
    then show ?thesis using takeWhile_segment[OF ns, of "[]"] dropWhile_segment[OF ns, of "[]"]
      by (simp only: simp_thms)
  qed
  show ?thesis
    unfolding id_after_def using sw dr tw ne by (simp add: Let_def)
qed

lemma id_at_here:
  assumes "toLowerCase op \<in> set [''update'', ''get'', ''delete'']" and "end_ok seg tail"
  shows "\<exists>m. id_at (CHR ''/'' # op @ CHR ''/'' # seg @ tail) = Some m"
  using assms(1) id_after_here[OF assms(2), of op]
  by (auto simp: id_at_def split: option.splits)

lemma href_id_form:
  assumes "toLowerCase op \<in> set [''update'', ''get'', ''delete'']" and "end_ok seg tail"
  shows "href_id (pre @ CHR ''/'' # op @ CHR ''/'' # seg @ tail) = Some seg"
proof (induction pre)
  case Nil
  from id_at_here[OF assms] obtain m where m: "id_at (CHR ''/'' # op @ CHR ''/'' # seg @ tail) = Some m"
    by blast
  from id_at_unique[OF m, of "CHR ''/'' # op" seg tail] assms(2) have "m = seg" by simp
  with m show ?case by simp
next
  case (Cons c p)
  show ?case
  proof (cases "id_at (c # p @ CHR ''/'' # op @ CHR ''/'' # seg @ tail)")
    case None
    with Cons.IH show ?thesis by simp
  next
    case (Some m)
    from id_at_unique[OF Some, of "c # p @ CHR ''/'' # op" seg tail] assms(2) have "m = seg" by simp
    with Some show ?thesis by simp
  qed
qed


lemma no_id_data_first: "no_id_data el \<Longrightarrow> first_truthy [ds_id el, ds_id el, closest (ds_id el # anc_id el)] = []"
  unfolding no_id_data_def by (cases "ds_id el") (auto split: if_splits)

lemma no_entity_data_first:
  "no_entity_data el \<Longrightarrow>
     first_truthy [ds_openEntity el, ds_editEntity el, ds_deleteEntity el, ds_entity el, ds_entity el] = []"
  unfolding no_entity_data_def
  by (cases "ds_openEntity el"; cases "ds_editEntity el"; cases "ds_deleteEntity el";
      cases "ds_entity el") (auto split: if_splits)

lemma getId_href:
  assumes "no_id_data el" and "at_href el = Some w" and "w \<noteq> []"
  shows "getIdFromElement (Some el) = strip_colon (case href_id w of Some m \<Rightarrow> m | None \<Rightarrow> [])"
proof -
  from assms(3) obtain c r where w: "w = c # r" by (cases w) auto
  from assms(1) have n: "first_truthy [ds_id el, ds_id el, closest (ds_id el # anc_id el)] = []"
    by (rule no_id_data_first)
  show ?thesis
    unfolding getIdFromElement_def option.case Let_def n assms(2) w by simp
qed

lemmas router_eval =
  getEntityFromElement_def getIdFromElement_def link_def href_entity_def id_at_def id_after_def
  op_then_end_def not_slash_def strip_colon_def strip_prefix_def strip_suffix_def
  rx_create_btn_def ci_def lit_def rx_dot_def no_entity_data_def no_id_data_def
  toLowerCase_def lower_char_def char_of_def bit_Suc_0_iff Let_def

text \<open>
  Claim C7, as amended. Take an element with no non-empty entity data attribute whose own id
  does not match \<^verbatim>\<open>create-...-btn\<close>: when its href starts with a non-empty first segment
  followed by one of get, create, update, delete (in any case) and then a slash or the end,
  the Entity Router resolves the entity as that first segment. Take an element with no
  non-empty \<^verbatim>\<open>data-id\<close> on itself or on an ancestor: when its href ends with one of
  update, get, delete (in any case) as a segment, then a non-empty last segment and at most
  one closing slash, the router resolves the identifier as that last segment with a single
  leading colon stripped. So \<^verbatim>\<open>/client/update/42/\<close> resolves to entity client and id 42,
  and \<^verbatim>\<open>/client/update/:42/\<close> to id 42.
\<close>

theorem router_from_href:
  "(no_entity_data el \<and> \<not> rx_full rx_create_btn (at_id el) \<and>
      at_href el = Some (''/'' @ ent @ ''/'' @ op @ rest) \<and> ent \<noteq> [] \<and> CHR ''/'' \<notin> set ent \<and>
      toLowerCase op \<in> set [''get'', ''create'', ''update'', ''delete''] \<and>
      (rest = [] \<or> hd rest = CHR ''/'')
      \<longrightarrow> getEntityFromElement (Some el) = ent) \<and>
   (no_id_data el \<and> at_href el = Some (pre @ ''/'' @ op' @ ''/'' @ seg @ tail) \<and>
      toLowerCase op' \<in> set [''update'', ''get'', ''delete''] \<and>
      seg \<noteq> [] \<and> CHR ''/'' \<notin> set seg \<and> (tail = [] \<or> tail = ''/'')
      \<longrightarrow> getIdFromElement (Some el) = strip_colon seg) \<and>
   getEntityFromElement (Some (link ''/client/update/42/'')) = ''client'' \<and>
   getIdFromElement (Some (link ''/client/update/42/'')) = ''42'' \<and>
   getIdFromElement (Some (link ''/client/update/:42/'')) = ''42''"
proof (intro conjI impI)
  assume a: "no_entity_data el \<and> \<not> rx_full rx_create_btn (at_id el) \<and>
      at_href el = Some (''/'' @ ent @ ''/'' @ op @ rest) \<and> ent \<noteq> [] \<and> CHR ''/'' \<notin> set ent \<and>
      toLowerCase op \<in> set [''get'', ''create'', ''update'', ''delete''] \<and>
      (rest = [] \<or> hd rest = CHR ''/'')"
  then have h: "href_entity (''/'' @ ent @ ''/'' @ op @ rest) = Some ent"
    by (intro href_entity_form) simp_all
  have f: "first_truthy [Some (''/'' @ ent @ ''/'' @ op @ rest)] = ''/'' @ ent @ ''/'' @ op @ rest"
    by simp
  from a have n: "first_truthy [ds_openEntity el, ds_editEntity el, ds_deleteEntity el,
      ds_entity el, ds_entity el] = []" by (simp add: no_entity_data_first)
  from a have b: "\<not> rx_full rx_create_btn (at_id el)"
    and hr: "at_href el = Some (''/'' @ ent @ ''/'' @ op @ rest)" by simp_all
  show "getEntityFromElement (Some el) = ent"
    unfolding getEntityFromElement_def option.case Let_def n hr using b h by simp
next
  assume a: "no_id_data el \<and> at_href el = Some (pre @ ''/'' @ op' @ ''/'' @ seg @ tail) \<and>
      toLowerCase op' \<in> set [''update'', ''get'', ''delete''] \<and>
      seg \<noteq> [] \<and> CHR ''/'' \<notin> set seg \<and> (tail = [] \<or> tail = ''/'')"
  then have e: "end_ok seg tail" by (simp add: end_ok_def)
  from a have o: "toLowerCase op' \<in> set [''update'', ''get'', ''delete'']" by simp
  have h: "href_id (pre @ ''/'' @ op' @ ''/'' @ seg @ tail) = Some seg"
    using href_id_form[OF o e, of pre] by simp
  from a have n: "no_id_data el"
    and hr: "at_href el = Some (pre @ ''/'' @ op' @ ''/'' @ seg @ tail)" by simp_all
  have "pre @ ''/'' @ op' @ ''/'' @ seg @ tail \<noteq> []" by simp
  from getId_href[OF n hr this] show "getIdFromElement (Some el) = strip_colon seg"
    unfolding h by simp
next
  show "getEntityFromElement (Some (link ''/client/update/42/'')) = ''client''"
    by (simp add: router_eval)
next
  show "getIdFromElement (Some (link ''/client/update/42/'')) = ''42''"
    by (simp add: router_eval)
next
  show "getIdFromElement (Some (link ''/client/update/:42/'')) = ''42''"
    by (simp add: router_eval)
qed

theorem router_from_href_witness:
  "no_entity_data (link ''/client/update/:42/'') \<and> no_id_data (link ''/client/update/:42/'') \<and>
   \<not> rx_full rx_create_btn (at_id (link ''/client/update/:42/'')) \<and>
   getEntityFromElement (Some (link ''/client/update/:42/'')) = ''client'' \<and>
   getIdFromElement (Some (link ''/client/update/:42/'')) = ''42''"
proof -
  let ?el = "link ''/client/update/:42/''"
  have a: "no_entity_data ?el \<and> no_id_data ?el \<and> \<not> rx_full rx_create_btn (at_id ?el)"
    by (simp add: router_eval)
  have h1: "at_href ?el = Some (''/'' @ ''client'' @ ''/'' @ ''update'' @ ''/:42/'')"
    and h2: "at_href ?el = Some (''/client'' @ ''/'' @ ''update'' @ ''/'' @ '':42'' @ ''/'')"
    by (simp_all add: link_def)
  have l: "toLowerCase ''update'' = ''update''" by (simp add: toLowerCase_def lower_char_def)
  from router_from_href[of ?el "''client''" "''update''" "''/:42/''" "''/client''" "''update''" "'':42''" "''/''"]
    a h1 h2 l
  show ?thesis by (simp add: strip_colon_def)
qed

text \<open>
  The claim as it is worded fails on three elements without data attributes of their own: one
  whose id is \<^verbatim>\<open>create-foo-btn\<close> resolves to the entity foo whatever its href; a
  \<^verbatim>\<open>create\<close> link matches the entity pattern and yields no identifier; and a link
  in a row that carries \<^verbatim>\<open>data-id\<close> takes the row's identifier.
\<close>

theorem router_claim_counterexample:
  "no_entity_data create_btn_link \<and> no_id_data create_btn_link \<and>
   at_href create_btn_link = Some ''/client/update/42/'' \<and>
   getEntityFromElement (Some create_btn_link) = ''foo'' \<and>
   href_entity ''/client/create/42/'' = Some ''client'' \<and>
   getIdFromElement (Some (link ''/client/create/42/'')) = [] \<and>
   ds_id row_link = None \<and> at_href row_link = Some ''/client/update/42/'' \<and>
   getIdFromElement (Some row_link) = ''7''"
  by (simp add: create_btn_link_def row_link_def router_eval)

subsection \<open>Delete\<close>

lemmas page_eval =
  deleteEntity_def getCurrentRole_def isUserPermEntity_def master_page_def staff_page_def
  encodeURIComponent_def uri_unreserved_def strip_colon_def is_space_def
  toLowerCase_def lower_char_def char_of_def bit_Suc_0_iff Let_def

text \<open>
  Claim C10. When the body's \<^verbatim>\<open>data-role\<close> equals \<^verbatim>\<open>master\<close>, letters in either
  case, \<^verbatim>\<open>deleteEntity\<close> makes no network request, for every entity and identifier and
  whatever the user answers to the confirmation; once the user has confirmed, the operation
  is refused with the alert that delete is disabled for the Master role, and nothing else
  happens.
\<close>

theorem deleteEntity_master_refused:
  "body_role pg = Some (Some role) \<and> toLowerCase role = ''master'' \<longrightarrow>
     list_all (\<lambda>e. \<not> is_fetch e) (deleteEntity pg confirmed entity ident) \<and>
     deleteEntity pg True entity ident =
       [Confirm ''Are you sure you want to delete this item?'',
        Alert ''Delete is disabled for Master role.'']"
  by (simp add: deleteEntity_def getCurrentRole_def)

theorem deleteEntity_master_refused_witness:
  "body_role master_page = Some (Some ''Master'') \<and> toLowerCase ''Master'' = ''master'' \<and>
   deleteEntity master_page True ''client'' ''42'' =
     [Confirm ''Are you sure you want to delete this item?'',
      Alert ''Delete is disabled for Master role.''] \<and>
   deleteEntity staff_page True ''client'' ''42'' =
     [Confirm ''Are you sure you want to delete this item?'',
      Fetch ''POST'' ''/client/delete/42/'' []]"
proof -
  have a: "body_role master_page = Some (Some ''Master'') \<and> toLowerCase ''Master'' = ''master''"
    by (simp add: page_eval)
  have b: "deleteEntity staff_page True ''client'' ''42'' =
     [Confirm ''Are you sure you want to delete this item?'',
      Fetch ''POST'' ''/client/delete/42/'' []]"
    by (simp add: page_eval)
  from deleteEntity_master_refused[of master_page "''Master''" True "''client''" "''42''"] a b
  show ?thesis by simp
qed

subsection \<open>The Submission Pipeline\<close>

lemmas response_eval =
  save_response_def handleAuthFailure_def openLoginModal_def showInlineLoginError_def or_else_def
  showFormErrors_def first_message_def joined_def has_modal_marker_def json_response_def
  phone_errors_def master_page_def toLowerCase_def lower_char_def Let_def

text \<open>
  Claim C5, as amended. For every response to a submission whose status is 401 or 403, or
  that arrived through a followed redirect, the pipeline takes the authentication-failure
  path and nothing else before the save button is restored: the login overlay is shown when
  the page holds the login modal, and the message \<^verbatim>\<open>Not authenticated.\<close> is set inline
  when the page holds the error element of that modal; a page that lacks the one or the
  other gets the message as an alert in its place. No effect is a field-error annotation,
  whatever the body of the response holds.
\<close>

theorem save_response_auth_failure:
  "res_status res = 401 \<or> res_status res = 403 \<or> res_redirected res \<longrightarrow>
     save_response pg (Some res) =
       (if has_login_modal pg then [ShowLoginOverlay] else [Alert ''Not authenticated.'']) @
       (if has_login_error pg then [LoginError ''Not authenticated.'']
        else [Alert ''Not authenticated.'']) @
       [ConsoleWarn ''Auth required'', SaveRestored] \<and>
     list_all (\<lambda>e. \<not> is_field_annotation e) (save_response pg (Some res))"
  by (auto simp: save_response_def handleAuthFailure_def openLoginModal_def
      showInlineLoginError_def or_else_def Let_def)

theorem save_response_auth_failure_witness:
  "res_status (json_response 403 phone_errors) = 403 \<and>
   save_response master_page (Some (json_response 403 phone_errors)) =
     [ShowLoginOverlay, LoginError ''Not authenticated.'', ConsoleWarn ''Auth required'',
      SaveRestored] \<and>
   res_redirected ((json_response 200 phone_errors)\<lparr>res_redirected := True\<rparr>) \<and>
   save_response master_page (Some ((json_response 200 phone_errors)\<lparr>res_redirected := True\<rparr>)) =
     [ShowLoginOverlay, LoginError ''Not authenticated.'', ConsoleWarn ''Auth required'',
      SaveRestored] \<and>
   save_response master_page (Some (json_response 200 phone_errors)) =
     [FieldAnnotation ''phone'' ''Invalid'', Alert ''Invalid'', MarkAndFocus ''phone'',
      SaveRestored]"
proof -
  have a: "res_status (json_response 403 phone_errors) = 403" by (simp add: json_response_def)
  have b: "save_response master_page (Some (json_response 200 phone_errors)) =
     [FieldAnnotation ''phone'' ''Invalid'', Alert ''Invalid'', MarkAndFocus ''phone'',
      SaveRestored]"
    by (simp add: response_eval)
  have c: "has_login_modal master_page \<and> has_login_error master_page"
    by (simp add: master_page_def)
  have d: "res_redirected ((json_response 200 phone_errors)\<lparr>res_redirected := True\<rparr>)" by simp
  from save_response_auth_failure[of "json_response 403 phone_errors" master_page]
    save_response_auth_failure[of "(json_response 200 phone_errors)\<lparr>res_redirected := True\<rparr>"
      master_page] a b c d
  show ?thesis by simp
qed

text \<open>
  The claim as it is worded fails on a page that holds neither the login modal nor its error
  element: a 403 response gives two alerts, and neither the overlay nor an inline message.
\<close>

theorem save_response_bare_page_counterexample:
  "res_status (json_response 403 phone_errors) = 403 \<and>
   save_response bare_page (Some (json_response 403 phone_errors)) =
     [Alert ''Not authenticated.'', Alert ''Not authenticated.'', ConsoleWarn ''Auth required'',
      SaveRestored] \<and>
   ShowLoginOverlay \<notin> set (save_response bare_page (Some (json_response 403 phone_errors))) \<and>
   LoginError ''Not authenticated.'' \<notin>
     set (save_response bare_page (Some (json_response 403 phone_errors)))"
  by (simp add: response_eval bare_page_def)











end
